theory Spec2Isabelle
  imports Complex_Main "HOL-Library.Word" "HOL-Library.AList"
begin

unbundle bit_operations_syntax

section \<open>Python values used by the TTS client\<close>

text \<open>
  The embedding follows \<^verbatim>\<open>models/volcengine_maas/models/tts/tts.py\<close>.
  A \<^verbatim>\<open>bytes\<close> object is a list of 8-bit words, a Python \<^verbatim>\<open>str\<close> is the list of
  its code points, and Python integers are unbounded (\<open>nat\<close> where they cannot be
  negative, \<open>int\<close> otherwise).
\<close>

type_synonym byte = "8 word"
type_synonym bytes = "byte list"
type_synonym str = "nat list"

text \<open>A string literal of the source, as a Python \<^verbatim>\<open>str\<close>.\<close>

definition lit :: "string \<Rightarrow> str" where
  "lit s = map of_char s"

text \<open>\<^verbatim>\<open>str(n)\<close> for a non-negative integer, as used by the f-string of the error message.\<close>

fun str_of_nat :: "nat \<Rightarrow> str" where
  "str_of_nat n = (if n < 10 then [48 + n] else str_of_nat (n div 10) @ [48 + n mod 10])"

declare str_of_nat.simps [simp del]

text \<open>\<^verbatim>\<open>int.from_bytes(bs, "big", signed=False)\<close>; the empty slice gives 0.\<close>

definition from_bytes_big :: "bytes \<Rightarrow> nat" where
  "from_bytes_big bs = foldl (\<lambda>n b. n * 256 + unat b) 0 bs"

text \<open>
  \<^verbatim>\<open>int.from_bytes(bs, "big", signed=True)\<close>: two's complement over the bytes that are
  there (a slice shorter than four bytes is read at its own width).
\<close>

definition from_bytes_big_signed :: "bytes \<Rightarrow> int" where
  "from_bytes_big_signed bs =
     (if bs \<noteq> [] \<and> 128 \<le> unat (hd bs)
      then int (from_bytes_big bs) - 2 ^ (8 * length bs)
      else int (from_bytes_big bs))"

text \<open>\<^verbatim>\<open>n.to_bytes(4, 'big')\<close>; \<open>None\<close> is Python's \<^verbatim>\<open>OverflowError\<close>.\<close>

definition to_bytes4_big :: "nat \<Rightarrow> bytes option" where
  "to_bytes4_big n =
     (if n < 2 ^ 32
      then Some [of_nat (n div 2 ^ 24), of_nat (n div 2 ^ 16), of_nat (n div 2 ^ 8), of_nat n]
      else None)"

text \<open>
  A JSON-serialisable Python value. A \<^verbatim>\<open>dict\<close> keeps its insertion order, so it is an
  association list.
\<close>

datatype json = JNull | JStr str | JFloat real | JObj "(string \<times> json) list"

type_synonym credentials = "string \<rightharpoonup> str"

text \<open>\<^verbatim>\<open>credentials.get(key)\<close> as a JSON value.\<close>

definition cred_get :: "credentials \<Rightarrow> string \<Rightarrow> json" where
  "cred_get credentials key = (case credentials key of None \<Rightarrow> JNull | Some v \<Rightarrow> JStr v)"

text \<open>\<^verbatim>\<open>d[k1][k2]\<close> on a nested dictionary; \<open>None\<close> where a key is missing.\<close>

fun json_get :: "json \<Rightarrow> string \<Rightarrow> json option" where
  "json_get (JObj kvs) k = map_of kvs k"
| "json_get _ k = None"

definition json_get2 :: "json \<Rightarrow> string \<Rightarrow> string \<Rightarrow> json option" where
  "json_get2 d k1 k2 = (case json_get d k1 of None \<Rightarrow> None | Some d' \<Rightarrow> json_get d' k2)"

section \<open>Exceptions, the environment and observable events\<close>

text \<open>
  Every exception the modelled code can raise. \<open>Raised x\<close> is an exception coming out
  of a library call (\<^verbatim>\<open>gzip.decompress\<close>, \<^verbatim>\<open>websockets.connect\<close>, \<^verbatim>\<open>ws.send\<close>,
  \<^verbatim>\<open>ws.recv\<close>), of a type \<open>'x\<close> the library chooses.
\<close>

datatype 'x error =
    IndexError
  | OverflowError
  | KeyError string
  | UnicodeDecodeError
  | InvokeBadRequestError str
  | Raised 'x

text \<open>
  An open websocket: \<open>ws_send\<close> answers \<open>Some x\<close> when sending raises; \<open>ws_recv n\<close> is the
  outcome of the \<open>n\<close>-th call of \<^verbatim>\<open>ws.recv()\<close>, a frame or an exception (such as the
  connection being closed).
\<close>

record 'x connection =
  ws_send :: "bytes \<Rightarrow> 'x option"
  ws_recv :: "nat \<Rightarrow> 'x + bytes"

text \<open>
  What the code calls but does not define: the standard library, the websocket
  library and the methods inherited from the plugin framework's \<^verbatim>\<open>TTSModel\<close>.
  \<open>json_dumps_encode\<close> is \<^verbatim>\<open>str.encode(json.dumps(d))\<close>; \<open>uuid4 n\<close> is the string of the
  \<open>n\<close>-th UUID drawn; \<open>ws_connect k url auth\<close> is the \<open>k\<close>-th connection attempt;
  \<open>get_tts_model_voices\<close> gives the \<^verbatim>\<open>"value"\<close> entries of the voice list.
\<close>

record 'x env =
  json_dumps_encode :: "json \<Rightarrow> bytes"
  gzip_compress :: "bytes \<Rightarrow> bytes"
  gzip_decompress :: "bytes \<Rightarrow> 'x + bytes"
  utf8_decode :: "bytes \<Rightarrow> str option"
  uuid4 :: "nat \<Rightarrow> str"
  ws_connect :: "nat \<Rightarrow> str \<Rightarrow> str \<Rightarrow> 'x + 'x connection"
  get_tts_model_voices :: "str \<Rightarrow> credentials \<Rightarrow> str list"
  get_model_default_voice :: "str \<Rightarrow> credentials \<Rightarrow> str"
  get_model_word_limit :: "str \<Rightarrow> credentials \<Rightarrow> nat"
  get_model_audio_type :: "str \<Rightarrow> credentials \<Rightarrow> str"
  split_text_into_sentences :: "str \<Rightarrow> nat \<Rightarrow> str list"

text \<open>
  What a caller and the network can observe, in the order it happens: a call of
  \<^verbatim>\<open>_get_audio_data\<close> for chunk \<open>k\<close> with its request, the connection of chunk \<open>k\<close>
  being opened (URL, \<^verbatim>\<open>Authorization\<close> header), a frame sent on it, the connection
  being closed, and a buffer yielded by the generator.
\<close>

datatype event =
    Session nat json
  | Connected nat str str
  | Sent nat bytes
  | Closed nat
  | Yielded bytes

section \<open>The frame decoder\<close>

text \<open>The header fields, as \<^verbatim>\<open>_parse_response\<close> reads them (lines 216 to 220).\<close>

definition message_type :: "bytes \<Rightarrow> byte" where
  "message_type response = drop_bit 4 (response ! 1)"

definition message_type_specific_flags :: "bytes \<Rightarrow> byte" where
  "message_type_specific_flags response = response ! 1 AND 0x0f"

definition message_compression :: "bytes \<Rightarrow> byte" where
  "message_compression response = response ! 2 AND 0x0f"

definition header_size :: "bytes \<Rightarrow> byte" where
  "header_size response = response ! 0 AND 0x0f"

definition payload :: "bytes \<Rightarrow> bytes" where
  "payload response = drop (unat (header_size response) * 4) response"

text \<open>The f-string \<^verbatim>\<open>f"Error code {code}: {error_msg}"\<close>.\<close>

definition error_text :: "nat \<Rightarrow> str \<Rightarrow> str" where
  "error_text code error_msg = lit ''Error code '' @ str_of_nat code @ lit '': '' @ error_msg"

text \<open>\<^verbatim>\<open>gzip.decompress\<close> applied only when the compression nibble is 1.\<close>

definition maybe_decompress :: "'x env \<Rightarrow> byte \<Rightarrow> bytes \<Rightarrow> 'x + bytes" where
  "maybe_decompress E compression bs =
     (if compression = 1 then gzip_decompress E bs else Inr bs)"

text \<open>
  \<^verbatim>\<open>_parse_response(response, audio_buffer)\<close>. The buffer is passed in and returned,
  also when the call raises: the first component is the exception or the returned
  flag, the second the contents of \<^verbatim>\<open>audio_buffer\<close> afterwards. Indexing
  \<^verbatim>\<open>response[1]\<close>, \<^verbatim>\<open>response[2]\<close> and \<^verbatim>\<open>response[0]\<close> raises \<^verbatim>\<open>IndexError\<close> on a frame
  of fewer than three bytes; slices never raise.
\<close>

definition parse_response :: "'x env \<Rightarrow> bytes \<Rightarrow> bytes \<Rightarrow> ('x error + bool) \<times> bytes" where
  "parse_response E response audio_buffer =
     (if length response < 3 then (Inl IndexError, audio_buffer)
      else if message_type response = 0xb then
        (if message_type_specific_flags response = 0 then (Inr False, audio_buffer)
         else
           let sequence_number = from_bytes_big_signed (take 4 (payload response));
               payload_size = from_bytes_big (take 4 (drop 4 (payload response)));
               audio_data = drop 8 (payload response)
           in (Inr (sequence_number < 0), audio_buffer @ audio_data))
      else if message_type response = 0xf then
        (let code = from_bytes_big (take 4 (payload response));
             msg_size = from_bytes_big (take 4 (drop 4 (payload response)));
             error_msg = drop 8 (payload response)
         in case maybe_decompress E (message_compression response) error_msg of
              Inl x \<Rightarrow> (Inl (Raised x), audio_buffer)
            | Inr error_bytes \<Rightarrow>
                (case utf8_decode E error_bytes of
                   None \<Rightarrow> (Inl UnicodeDecodeError, audio_buffer)
                 | Some error_str \<Rightarrow>
                     (Inl (InvokeBadRequestError (error_text code error_str)), audio_buffer)))
      else if message_type response = 0xc then
        (let msg_size = from_bytes_big (take 4 (payload response));
             msg_payload = drop 4 (payload response)
         in case maybe_decompress E (message_compression response) msg_payload of
              Inl x \<Rightarrow> (Inl (Raised x), audio_buffer)
            | Inr msg_bytes \<Rightarrow> (Inr True, audio_buffer))
      else (Inr False, audio_buffer))"

section \<open>One synthesis session\<close>

text \<open>
  The receive loop of \<^verbatim>\<open>_get_audio_data\<close> (lines 199 to 203), started at the \<open>n\<close>-th
  \<^verbatim>\<open>recv\<close>. It ends with an exception (\<open>Some e\<close>) or because a frame was final
  (\<open>None\<close>), together with the buffer; a server that keeps sending frames that are
  not final keeps it running for ever, which is the value \<open>None\<close> of the whole call.
\<close>

partial_function (option) recv_loop ::
  "'x env \<Rightarrow> (nat \<Rightarrow> 'x + bytes) \<Rightarrow> nat \<Rightarrow> bytes \<Rightarrow> ('x error option \<times> bytes) option"
where
  "recv_loop E rcv n audio_buffer =
     (case rcv n of
        Inl x \<Rightarrow> Some (Some (Raised x), audio_buffer)
      | Inr response \<Rightarrow>
          (case parse_response E response audio_buffer of
             (Inl e, buf) \<Rightarrow> Some (Some e, buf)
           | (Inr done, buf) \<Rightarrow>
               if done then Some (None, buf) else recv_loop E rcv (Suc n) buf))"

text \<open>
  The first \<open>m\<close> iterations of the same loop: \<open>Inl\<close> the outcome when the loop has ended
  within them, \<open>Inr\<close> the buffer when all \<open>m\<close> frames asked for more.
\<close>

fun recv_steps ::
  "'x env \<Rightarrow> (nat \<Rightarrow> 'x + bytes) \<Rightarrow> nat \<Rightarrow> nat \<Rightarrow> bytes \<Rightarrow> ('x error option \<times> bytes) + bytes"
where
  "recv_steps E rcv 0 n audio_buffer = Inr audio_buffer"
| "recv_steps E rcv (Suc m) n audio_buffer =
     (case rcv n of
        Inl x \<Rightarrow> Inl (Some (Raised x), audio_buffer)
      | Inr response \<Rightarrow>
          (case parse_response E response audio_buffer of
             (Inl e, buf) \<Rightarrow> Inl (Some e, buf)
           | (Inr done, buf) \<Rightarrow>
               if done then Inl (None, buf) else recv_steps E rcv m (Suc n) buf))"

text \<open>The class constant \<^verbatim>\<open>DEFAULT_HEADER\<close>.\<close>

definition DEFAULT_HEADER :: bytes where
  "DEFAULT_HEADER = [0x11, 0x10, 0x11, 0x00]"

text \<open>
  The request frame built by \<^verbatim>\<open>_get_audio_data\<close> (lines 184 to 190); \<open>None\<close> is the
  \<^verbatim>\<open>OverflowError\<close> of \<^verbatim>\<open>to_bytes\<close>.
\<close>

definition full_client_request :: "'x env \<Rightarrow> json \<Rightarrow> bytes option" where
  "full_client_request E request_json =
     (let payload_bytes = gzip_compress E (json_dumps_encode E request_json)
      in case to_bytes4_big (length payload_bytes) of
           None \<Rightarrow> None
         | Some size_bytes \<Rightarrow> Some (DEFAULT_HEADER @ size_bytes @ payload_bytes))"

text \<open>The URL and the \<^verbatim>\<open>Authorization\<close> header of \<^verbatim>\<open>_get_audio_data\<close> (lines 180, 181, 193).\<close>

definition api_url :: "credentials \<Rightarrow> str" where
  "api_url credentials =
     (case credentials ''api_endpoint_host'' of
        None \<Rightarrow> lit ''wss://openspeech.bytedance.com''
      | Some host \<Rightarrow> host) @ lit ''/api/v1/tts/ws_binary''"

definition authorization :: "str \<Rightarrow> str" where
  "authorization key = lit ''Bearer; '' @ key"

text \<open>
  \<^verbatim>\<open>_get_audio_data(request_json, credentials)\<close> for chunk \<open>k\<close>: the result (an
  exception or the audio bytes) and the events in order. The request frame is built
  first, then the header (\<^verbatim>\<open>credentials['volc_access_key_id']\<close> raises \<^verbatim>\<open>KeyError\<close>
  on a missing key), then the connection is opened; \<^verbatim>\<open>async with\<close> closes it on
  every way out of its body. The whole value is \<open>None\<close> when the receive loop never
  ends.
\<close>

definition get_audio_data ::
  "'x env \<Rightarrow> nat \<Rightarrow> json \<Rightarrow> credentials \<Rightarrow> (('x error + bytes) \<times> event list) option"
where
  "get_audio_data E k request_json credentials =
     (case full_client_request E request_json of
        None \<Rightarrow> Some (Inl OverflowError, [Session k request_json])
      | Some request_bytes \<Rightarrow>
          (case credentials ''volc_access_key_id'' of
             None \<Rightarrow> Some (Inl (KeyError ''volc_access_key_id''), [Session k request_json])
           | Some key \<Rightarrow>
               (case ws_connect E k (api_url credentials) (authorization key) of
                  Inl x \<Rightarrow> Some (Inl (Raised x), [Session k request_json])
                | Inr ws \<Rightarrow>
                    (case ws_send ws request_bytes of
                       Some x \<Rightarrow>
                         Some (Inl (Raised x),
                           [Session k request_json,
                            Connected k (api_url credentials) (authorization key),
                            Closed k])
                     | None \<Rightarrow>
                         (case recv_loop E (ws_recv ws) 0 [] of
                            None \<Rightarrow> None
                          | Some (outcome, audio_buffer) \<Rightarrow>
                              Some (case outcome of
                                      Some e \<Rightarrow> Inl e
                                    | None \<Rightarrow> Inr audio_buffer,
                                [Session k request_json,
                                 Connected k (api_url credentials) (authorization key),
                                 Sent k request_bytes,
                                 Closed k]))))))"

text \<open>
  The connection on which \<^verbatim>\<open>_get_audio_data\<close> runs its receive loop, when it gets
  that far: the request frame was built, the key was there, the connection was
  opened and the frame was sent.
\<close>

definition session_connection ::
  "'x env \<Rightarrow> nat \<Rightarrow> json \<Rightarrow> credentials \<Rightarrow> 'x connection option"
where
  "session_connection E k request_json credentials =
     (case full_client_request E request_json of
        None \<Rightarrow> None
      | Some request_bytes \<Rightarrow>
          (case credentials ''volc_access_key_id'' of
             None \<Rightarrow> None
           | Some key \<Rightarrow>
               (case ws_connect E k (api_url credentials) (authorization key) of
                  Inl x \<Rightarrow> None
                | Inr ws \<Rightarrow>
                    (case ws_send ws request_bytes of
                       Some x \<Rightarrow> None
                     | None \<Rightarrow> Some ws))))"

section \<open>The streaming orchestrator\<close>

text \<open>The dictionary \<^verbatim>\<open>base_request\<close> of \<^verbatim>\<open>_invoke_streaming\<close> (lines 136 to 152).\<close>

definition base_request :: "credentials \<Rightarrow> str \<Rightarrow> str \<Rightarrow> str \<Rightarrow> (string \<times> json) list" where
  "base_request credentials uid voice audio_type =
     [(''app'', JObj [(''appid'', cred_get credentials ''endpoint_id''),
                      (''token'', cred_get credentials ''volc_access_key_id''),
                      (''cluster'', cred_get credentials ''volc_region'')]),
      (''user'', JObj [(''uid'', JStr uid)]),
      (''audio'', JObj [(''voice_type'', JStr voice),
                        (''encoding'', JStr audio_type),
                        (''speed_ratio'', JFloat 1),
                        (''volume_ratio'', JFloat 1),
                        (''pitch_ratio'', JFloat 1)])]"

text \<open>
  The request of one sentence (lines 159 to 165): a copy of \<^verbatim>\<open>base_request\<close> with the
  key \<^verbatim>\<open>"request"\<close> set; \<open>reqid\<close> is the UUID drawn for it.
\<close>

definition chunk_request :: "(string \<times> json) list \<Rightarrow> str \<Rightarrow> str \<Rightarrow> json" where
  "chunk_request base reqid sentence =
     JObj (AList.update ''request''
             (JObj [(''reqid'', JStr reqid),
                    (''text'', JStr sentence),
                    (''text_type'', JStr (lit ''plain'')),
                    (''operation'', JStr (lit ''submit''))]) base)"

text \<open>
  The \<^verbatim>\<open>for\<close> loop of \<^verbatim>\<open>_invoke_streaming\<close> (lines 158 to 168), for a caller that
  consumes the whole generator: \<open>k\<close> counts the chunks done, \<open>u\<close> the UUIDs drawn. The
  result is the trace of events and the exception that ended the generator, if any.
\<close>

fun stream_sentences ::
  "'x env \<Rightarrow> (string \<times> json) list \<Rightarrow> credentials \<Rightarrow> nat \<Rightarrow> nat \<Rightarrow> str list
     \<Rightarrow> (event list \<times> 'x error option) option"
where
  "stream_sentences E base credentials k u [] = Some ([], None)"
| "stream_sentences E base credentials k u (sentence # sentences) =
     (case get_audio_data E k (chunk_request base (uuid4 E u) sentence) credentials of
        None \<Rightarrow> None
      | Some (Inl e, evs) \<Rightarrow> Some (evs, Some e)
      | Some (Inr chunk, evs) \<Rightarrow>
          (case stream_sentences E base credentials (Suc k) (Suc u) sentences of
             None \<Rightarrow> None
           | Some (tr, failure) \<Rightarrow> Some (evs @ Yielded chunk # tr, failure)))"

text \<open>
  \<^verbatim>\<open>user or str(uuid.uuid4())\<close>: the user identifier and the number of UUIDs drawn
  for it.
\<close>

definition user_uid :: "'x env \<Rightarrow> str option \<Rightarrow> str \<times> nat" where
  "user_uid E user =
     (case user of
        None \<Rightarrow> (uuid4 E 0, 1)
      | Some w \<Rightarrow> if w = [] then (uuid4 E 0, 1) else (w, 0))"

text \<open>\<^verbatim>\<open>_invoke_streaming(model, credentials, content_text, voice, user)\<close>.\<close>

definition invoke_streaming ::
  "'x env \<Rightarrow> str \<Rightarrow> credentials \<Rightarrow> str \<Rightarrow> str \<Rightarrow> str option
     \<Rightarrow> (event list \<times> 'x error option) option"
where
  "invoke_streaming E model credentials content_text voice user =
     (let word_limit = get_model_word_limit E model credentials;
          audio_type = get_model_audio_type E model credentials;
          sentences = split_text_into_sentences E content_text word_limit;
          base = base_request credentials (fst (user_uid E user)) voice audio_type
      in stream_sentences E base credentials 0 (snd (user_uid E user)) sentences)"

text \<open>The voice \<^verbatim>\<open>_invoke\<close> goes on with (lines 76 to 79).\<close>

definition effective_voice :: "'x env \<Rightarrow> str \<Rightarrow> credentials \<Rightarrow> str \<Rightarrow> str" where
  "effective_voice E model credentials voice =
     (if voice = [] \<or> voice \<notin> set (get_tts_model_voices E model credentials)
      then get_model_default_voice E model credentials
      else voice)"

text \<open>\<^verbatim>\<open>_invoke(model, tenant_id, credentials, content_text, voice, user)\<close>.\<close>

definition invoke ::
  "'x env \<Rightarrow> str \<Rightarrow> str \<Rightarrow> credentials \<Rightarrow> str \<Rightarrow> str \<Rightarrow> str option
     \<Rightarrow> (event list \<times> 'x error option) option"
where
  "invoke E model tenant_id credentials content_text voice user =
     invoke_streaming E model credentials content_text
       (effective_voice E model credentials voice) user"

section \<open>Reading a trace\<close>

text \<open>The buffers a trace yields, in order, and the chunks whose session was started.\<close>

fun yielded :: "event list \<Rightarrow> bytes list" where
  "yielded [] = []"
| "yielded (Yielded b # evs) = b # yielded evs"
| "yielded (ev # evs) = yielded evs"

fun sessions :: "event list \<Rightarrow> nat list" where
  "sessions [] = []"
| "sessions (Session k request_json # evs) = k # sessions evs"
| "sessions (ev # evs) = sessions evs"

text \<open>
  Where the work on the current chunk stands: nothing started, \<^verbatim>\<open>_get_audio_data\<close>
  called, its connection open, its connection closed again.
\<close>

datatype phase = Idle | Called | Opened | Shut

text \<open>
  A trace is sequential from chunk \<open>i\<close> in phase \<open>p\<close> when every event belongs to the
  current chunk and comes in the order call, connect, send, close, yield; a yield
  moves on to the next chunk, and the trace does not end with a connection open. So
  nothing of chunk \<open>i + 1\<close> happens before the connection of chunk \<open>i\<close> is closed and
  its buffer yielded.
\<close>

fun sequential :: "nat \<Rightarrow> phase \<Rightarrow> event list \<Rightarrow> bool" where
  "sequential i p [] = (p \<noteq> Opened)"
| "sequential i p (Session k request_json # evs) =
     (k = i \<and> p = Idle \<and> sequential i Called evs)"
| "sequential i p (Connected k url auth # evs) =
     (k = i \<and> p = Called \<and> sequential i Opened evs)"
| "sequential i p (Sent k frame # evs) = (k = i \<and> p = Opened \<and> sequential i Opened evs)"
| "sequential i p (Closed k # evs) = (k = i \<and> p = Opened \<and> sequential i Shut evs)"
| "sequential i p (Yielded b # evs) = (p = Shut \<and> sequential (Suc i) Idle evs)"

text \<open>
  The session of the \<open>i\<close>-th sentence as \<^verbatim>\<open>_invoke_streaming\<close> runs it: on the \<open>i\<close>-th
  connection, with the request made from the base request, the \<open>i\<close>-th UUID drawn
  in the loop and the sentence.
\<close>

definition chunk_session ::
  "'x env \<Rightarrow> str \<Rightarrow> credentials \<Rightarrow> str \<Rightarrow> str \<Rightarrow> str option \<Rightarrow> nat
     \<Rightarrow> (('x error + bytes) \<times> event list) option"
where
  "chunk_session E model credentials content_text voice user i =
     get_audio_data E i
       (chunk_request
          (base_request credentials (fst (user_uid E user)) voice
             (get_model_audio_type E model credentials))
          (uuid4 E (snd (user_uid E user) + i))
          (split_text_into_sentences E content_text
             (get_model_word_limit E model credentials) ! i))
       credentials"

section \<open>The requests of a run\<close>

text \<open>
  The requests that the \<^verbatim>\<open>for\<close> loop of \<^verbatim>\<open>_invoke_streaming\<close> (lines 158 to 168)
  hands to \<^verbatim>\<open>_get_audio_data\<close>, in order, whether or not the run ever ends: the
  request of a sentence is built and handed over as soon as the loop reaches the
  sentence, and the loop reaches the next sentence only when the session of this
  one has returned audio.
\<close>

fun loop_requests ::
  "'x env \<Rightarrow> (string \<times> json) list \<Rightarrow> credentials \<Rightarrow> nat \<Rightarrow> nat \<Rightarrow> str list \<Rightarrow> json list"
where
  "loop_requests E base credentials k u [] = []"
| "loop_requests E base credentials k u (sentence # sentences) =
     chunk_request base (uuid4 E u) sentence #
     (case get_audio_data E k (chunk_request base (uuid4 E u) sentence) credentials of
        Some (Inr chunk, evs) \<Rightarrow> loop_requests E base credentials (Suc k) (Suc u) sentences
      | _ \<Rightarrow> [])"

text \<open>The same for \<^verbatim>\<open>_invoke_streaming\<close> and for \<^verbatim>\<open>_invoke\<close>.\<close>

definition invoke_streaming_requests ::
  "'x env \<Rightarrow> str \<Rightarrow> credentials \<Rightarrow> str \<Rightarrow> str \<Rightarrow> str option \<Rightarrow> json list"
where
  "invoke_streaming_requests E model credentials content_text voice user =
     (let word_limit = get_model_word_limit E model credentials;
          audio_type = get_model_audio_type E model credentials;
          sentences = split_text_into_sentences E content_text word_limit;
          base = base_request credentials (fst (user_uid E user)) voice audio_type
      in loop_requests E base credentials 0 (snd (user_uid E user)) sentences)"

definition invoke_requests ::
  "'x env \<Rightarrow> str \<Rightarrow> str \<Rightarrow> credentials \<Rightarrow> str \<Rightarrow> str \<Rightarrow> str option \<Rightarrow> json list"
where
  "invoke_requests E model tenant_id credentials content_text voice user =
     invoke_streaming_requests E model credentials content_text
       (effective_voice E model credentials voice) user"

text \<open>The requests of the sessions a trace records, in order.\<close>

fun session_requests :: "event list \<Rightarrow> json list" where
  "session_requests [] = []"
| "session_requests (Session k request_json # evs) = request_json # session_requests evs"
| "session_requests (ev # evs) = session_requests evs"

section \<open>A sample environment\<close>

text \<open>
  Concrete stand-ins for the libraries, used to run the definitions on explicit
  inputs. They agree with the libraries on the inputs used here:
  \<^verbatim>\<open>gzip.decompress\<close> gives the empty string on the empty string, the text
  \<^verbatim>\<open>invalid token\<close> on its gzip stream, and rejects data that does not start with
  the gzip magic number; \<^verbatim>\<open>str(b, "utf-8")\<close> on ASCII bytes gives their code points.
\<close>

datatype lib_exn = BadGzipFile | ConnectionClosed | ConnectionRefused

definition gz_invalid_token :: bytes where
  "gz_invalid_token =
     [0x1f, 0x8b, 0x08, 0x00, 0x00, 0x00, 0x00, 0x00, 0x02, 0x03, 0xcb, 0xcc, 0x2b, 0x4b,
      0xcc, 0xc9, 0x4c, 0x51, 0x28, 0xc9, 0xcf, 0x4e, 0xcd, 0x03, 0x00, 0x1a, 0x2c, 0x70,
      0xfb, 0x0d, 0x00, 0x00, 0x00]"

definition demo_gunzip :: "bytes \<Rightarrow> lib_exn + bytes" where
  "demo_gunzip bs =
     (if bs = [] then Inr []
      else if bs = gz_invalid_token then Inr (map of_char ''invalid token'')
      else Inl BadGzipFile)"

definition demo_utf8 :: "bytes \<Rightarrow> str option" where
  "demo_utf8 bs = (if list_all (\<lambda>b. b < 0x80) bs then Some (map unat bs) else None)"

definition demo_split :: "str \<Rightarrow> nat \<Rightarrow> str list" where
  "demo_split text limit =
     filter (\<lambda>s. s \<noteq> []) [take limit text, take limit (drop limit text)]"

text \<open>A connection on which sending succeeds and the server sends the given frames, then closes.\<close>

definition frames_then_closed :: "bytes list \<Rightarrow> lib_exn connection" where
  "frames_then_closed frames =
     \<lparr> ws_send = (\<lambda>bs. None),
       ws_recv = (\<lambda>n. if n < length frames then Inr (frames ! n) else Inl ConnectionClosed) \<rparr>"

text \<open>The environment whose \<open>k\<close>-th connection attempt gives the \<open>k\<close>-th of the connections.\<close>

definition demo_env :: "lib_exn connection list \<Rightarrow> lib_exn env" where
  "demo_env conns =
     \<lparr> json_dumps_encode = (\<lambda>d. [0x7b, 0x7d]),
       gzip_compress = (\<lambda>bs. [0x1f, 0x8b] @ bs),
       gzip_decompress = demo_gunzip,
       utf8_decode = demo_utf8,
       uuid4 = (\<lambda>n. lit ''uuid-'' @ str_of_nat n),
       ws_connect = (\<lambda>k url auth.
          if k < length conns then Inr (conns ! k) else Inl ConnectionRefused),
       get_tts_model_voices = (\<lambda>model credentials. [lit ''zh_female'', lit ''en_male'']),
       get_model_default_voice = (\<lambda>model credentials. lit ''zh_female''),
       get_model_word_limit = (\<lambda>model credentials. 6),
       get_model_audio_type = (\<lambda>model credentials. lit ''mp3''),
       split_text_into_sentences = demo_split \<rparr>"

text \<open>
  Sample frames: an acknowledgement, an audio frame with sequence number 1, the last
  audio frame (sequence number -1), an error frame with code 45000001 and the
  compressed message \<^verbatim>\<open>invalid token\<close>, a metadata frame, an audio frame that declares
  ten bytes and carries two, and an error frame whose message is not a gzip stream.
\<close>

definition ack_frame :: bytes where
  "ack_frame = [0x11, 0xb0, 0x10, 0x00]"

definition audio_frame :: bytes where
  "audio_frame = [0x11, 0xb1, 0x10, 0x00, 0, 0, 0, 1, 0, 0, 0, 2, 0xaa, 0xbb]"

definition last_audio_frame :: bytes where
  "last_audio_frame = [0x11, 0xb3, 0x10, 0x00, 0xff, 0xff, 0xff, 0xff, 0, 0, 0, 1, 0xcc]"

definition error_frame :: bytes where
  "error_frame =
     [0x11, 0xf0, 0x11, 0x00, 0x02, 0xae, 0xa5, 0x41, 0, 0, 0, 33] @ gz_invalid_token"

definition frontend_frame :: bytes where
  "frontend_frame = [0x11, 0xc0, 0x10, 0x00, 0, 0, 0, 2, 0x7b, 0x7d]"

definition short_audio_frame :: bytes where
  "short_audio_frame = [0x11, 0xb1, 0x10, 0x00, 0, 0, 0, 1, 0, 0, 0, 10, 0xaa, 0xbb]"

definition bad_gzip_error_frame :: bytes where
  "bad_gzip_error_frame = [0x11, 0xf0, 0x11, 0x00, 0x02, 0xae, 0xa5, 0x41, 0, 0, 0, 1, 0x00]"

text \<open>
  An error frame with code 45000001, no compression, and a message that is not
  UTF-8; and an error frame whose payload has three bytes only.
\<close>

definition bad_utf8_error_frame :: bytes where
  "bad_utf8_error_frame = [0x11, 0xf0, 0x10, 0x00, 0x02, 0xae, 0xa5, 0x41, 0, 0, 0, 1, 0xff]"

definition short_error_frame :: bytes where
  "short_error_frame = [0x11, 0xf0, 0x10, 0x00, 0x02, 0xae, 0xa5]"

text \<open>A connection on which the server acknowledges for ever and never sends audio.\<close>

definition acks_for_ever :: "lib_exn connection" where
  "acks_for_ever = \<lparr> ws_send = (\<lambda>bs. None), ws_recv = (\<lambda>n. Inr ack_frame) \<rparr>"

section \<open>Evaluation and the receive loop\<close>

lemmas frame_eval = parse_response_def message_type_def message_type_specific_flags_def
  message_compression_def payload_def header_size_def from_bytes_big_signed_def
  from_bytes_big_def maybe_decompress_def

lemma low_nibble: "unat ((b :: byte) AND 0x0f) = unat b mod 16"
proof -
  have "b AND 0x0f = b AND mask 4" by (simp add: mask_eq_exp_minus_1)
  also have "\<dots> = b mod 16" by (simp add: take_bit_eq_mod flip: take_bit_eq_mask)
  finally show ?thesis by (simp add: unat_mod)
qed

lemma high_nibble: "unat (drop_bit 4 (b :: byte)) = unat b div 16"
  by (simp add: drop_bit_eq_div unat_div)

text \<open>One iteration of the receive loop on a frame that arrived.\<close>

lemma recv_loop_frame:
  "rcv n = Inr response \<Longrightarrow>
   recv_loop E rcv n buf =
     (case parse_response E response buf of
        (Inl e, b) \<Rightarrow> Some (Some e, b)
      | (Inr done, b) \<Rightarrow> if done then Some (None, b) else recv_loop E rcv (Suc n) b)"
  by (subst recv_loop.simps) simp

text \<open>When the loop has ended within \<open>m\<close> iterations, it returns that outcome.\<close>

lemma recv_steps_ended:
  "recv_steps E rcv m n buf = Inl res \<Longrightarrow> recv_loop E rcv n buf = Some res"
proof (induction m arbitrary: n buf)
  case 0
  then show ?case by simp
next
  case (Suc m)
  show ?case
  proof (cases "rcv n")
    case (Inl x)
    with Suc.prems show ?thesis by (subst recv_loop.simps) auto
  next
    case (Inr response)
    obtain r buf' where p: "parse_response E response buf = (r, buf')"
      by (cases "parse_response E response buf")
    show ?thesis
    proof (cases r)
      case (Inl e)
      with Suc.prems Inr p show ?thesis by (subst recv_loop.simps) auto
    next
      case r: (Inr d)
      show ?thesis
      proof (cases d)
        case True
        with Suc.prems Inr p r show ?thesis by (subst recv_loop.simps) auto
      next
        case False
        with Suc.prems Inr p r have "recv_steps E rcv m (Suc n) buf' = Inl res" by simp
        then have "recv_loop E rcv (Suc n) buf' = Some res" by (rule Suc.IH)
        with Inr p r False show ?thesis by (subst recv_loop.simps) simp
      qed
    qed
  qed
qed

text \<open>After \<open>m\<close> frames that all asked for more, the loop goes on at frame \<open>n + m\<close>.\<close>

lemma recv_steps_more:
  "recv_steps E rcv m n buf = Inr buf' \<Longrightarrow>
   recv_loop E rcv n buf = recv_loop E rcv (n + m) buf'"
proof (induction m arbitrary: n buf)
  case 0
  then show ?case by simp
next
  case (Suc m)
  from Suc.prems obtain response where rc: "rcv n = Inr response"
    by (cases "rcv n") auto
  obtain r b where p: "parse_response E response buf = (r, b)"
    by (cases "parse_response E response buf")
  from Suc.prems rc p have r: "r = Inr False"
    by (cases r) (auto split: if_splits)
  with Suc.prems rc p have "recv_steps E rcv m (Suc n) b = Inr buf'" by simp
  then have "recv_loop E rcv (Suc n) b = recv_loop E rcv (Suc n + m) buf'" by (rule Suc.IH)
  with rc p r show ?case by (subst recv_loop.simps) simp
qed

lemma parse_audio:
  "3 \<le> length response \<Longrightarrow> message_type response = 0xb \<Longrightarrow>
   parse_response E response buf =
     (if message_type_specific_flags response = 0 then (Inr False, buf)
      else (Inr (from_bytes_big_signed (take 4 (payload response)) < 0),
            buf @ drop 8 (payload response)))"
  by (simp add: parse_response_def)

section \<open>Audio frames\<close>

text \<open>
  Claim C1. For a frame of message type 0xb (a frame has at least the three header
  bytes the decoder indexes): with flags 0 the decoder returns \<open>False\<close> (continue) and
  leaves the buffer as it is; with any other flags it appends the bytes after the
  8-byte prefix of the payload and returns whether the signed big-endian sequence
  number is negative. In a session whose first \<open>m\<close> frames all asked for more,
  whatever \<open>m\<close> is, such a frame with a negative sequence number ends the receive
  loop normally with the accumulated audio, and one with a sequence number that is
  not negative lets the loop go on with the next frame.
\<close>

theorem audio_frame_session:
  assumes "3 \<le> length response" and "message_type response = 0xb"
  shows "(message_type_specific_flags response = 0 \<longrightarrow>
            parse_response E response buf = (Inr False, buf)) \<and>
         (message_type_specific_flags response \<noteq> 0 \<longrightarrow>
            parse_response E response buf =
              (Inr (from_bytes_big_signed (take 4 (payload response)) < 0),
               buf @ drop 8 (payload response))) \<and>
         (message_type_specific_flags response \<noteq> 0 \<and>
          recv_steps E rcv m 0 [] = Inr buf \<and> rcv m = Inr response \<longrightarrow>
            (from_bytes_big_signed (take 4 (payload response)) < 0 \<longrightarrow>
               recv_loop E rcv 0 [] = Some (None, buf @ drop 8 (payload response))) \<and>
            (\<not> from_bytes_big_signed (take 4 (payload response)) < 0 \<longrightarrow>
               recv_loop E rcv 0 [] =
                 recv_loop E rcv (Suc m) (buf @ drop 8 (payload response))))"
proof (intro conjI impI)
  assume "message_type_specific_flags response = 0"
  with assms show "parse_response E response buf = (Inr False, buf)"
    by (simp add: parse_audio)
next
  assume "message_type_specific_flags response \<noteq> 0"
  with assms show "parse_response E response buf =
      (Inr (from_bytes_big_signed (take 4 (payload response)) < 0),
       buf @ drop 8 (payload response))"
    by (simp add: parse_audio)
next
  assume h: "message_type_specific_flags response \<noteq> 0 \<and>
    recv_steps E rcv m 0 [] = Inr buf \<and> rcv m = Inr response"
    and neg: "from_bytes_big_signed (take 4 (payload response)) < 0"
  from h have "recv_loop E rcv 0 [] = recv_loop E rcv m buf"
    using recv_steps_more [of E rcv m 0 "[]" buf] by simp
  also from h neg assms have "\<dots> = Some (None, buf @ drop 8 (payload response))"
    by (simp add: recv_loop_frame parse_audio)
  finally show "recv_loop E rcv 0 [] = Some (None, buf @ drop 8 (payload response))" .
next
  assume h: "message_type_specific_flags response \<noteq> 0 \<and>
    recv_steps E rcv m 0 [] = Inr buf \<and> rcv m = Inr response"
    and nneg: "\<not> from_bytes_big_signed (take 4 (payload response)) < 0"
  from h have "recv_loop E rcv 0 [] = recv_loop E rcv m buf"
    using recv_steps_more [of E rcv m 0 "[]" buf] by simp
  also from h nneg assms
  have "\<dots> = recv_loop E rcv (Suc m) (buf @ drop 8 (payload response))"
    by (simp add: recv_loop_frame parse_audio)
  finally show "recv_loop E rcv 0 [] =
      recv_loop E rcv (Suc m) (buf @ drop 8 (payload response))" .
qed

theorem audio_frame_session_witness:
  "3 \<le> length last_audio_frame \<and> message_type last_audio_frame = 0xb \<and>
   message_type_specific_flags last_audio_frame \<noteq> 0 \<and>
   recv_steps (demo_env [])
     (ws_recv (frames_then_closed [ack_frame, audio_frame, last_audio_frame]))
     (Suc (Suc 0)) 0 [] = Inr [0xaa, 0xbb] \<and>
   from_bytes_big_signed (take 4 (payload last_audio_frame)) = - 1 \<and>
   parse_response (demo_env []) ack_frame [0xaa] = (Inr False, [0xaa]) \<and>
   parse_response (demo_env []) last_audio_frame [0xaa, 0xbb] =
     (Inr True, [0xaa, 0xbb, 0xcc]) \<and>
   recv_loop (demo_env [])
     (ws_recv (frames_then_closed [ack_frame, audio_frame, last_audio_frame])) 0 [] =
     Some (None, [0xaa, 0xbb, 0xcc])"
proof -
  let ?rcv = "ws_recv (frames_then_closed [ack_frame, audio_frame, last_audio_frame])"
  have a: "3 \<le> length last_audio_frame" "message_type last_audio_frame = 0xb"
    "message_type_specific_flags last_audio_frame \<noteq> 0"
    by (simp_all add: last_audio_frame_def message_type_def message_type_specific_flags_def)
  have s: "recv_steps (demo_env []) ?rcv (Suc (Suc 0)) 0 [] = Inr [0xaa, 0xbb]"
    by (simp add: frames_then_closed_def ack_frame_def audio_frame_def frame_eval)
  have r: "?rcv (Suc (Suc 0)) = Inr last_audio_frame"
    by (simp add: frames_then_closed_def)
  have q: "from_bytes_big_signed (take 4 (payload last_audio_frame)) = - 1"
    "drop 8 (payload last_audio_frame) = [0xcc]"
    by (simp_all add: last_audio_frame_def frame_eval)
  have k: "3 \<le> length ack_frame" "message_type ack_frame = 0xb"
    "message_type_specific_flags ack_frame = 0"
    by (simp_all add: ack_frame_def message_type_def message_type_specific_flags_def)
  show ?thesis
    using audio_frame_session [OF a(1,2), of "demo_env []" "[0xaa, 0xbb]" ?rcv "Suc (Suc 0)"]
      audio_frame_session [OF k(1,2), of "demo_env []" "[0xaa]"]
      a s r q k
    by simp
qed

section \<open>The header\<close>

text \<open>
  Claim C4. The decoder takes the header size from the low nibble of byte 0, the
  message type from the high nibble of byte 1, the flags from the low nibble of
  byte 1 and the compression method from the low nibble of byte 2, and the payload
  is the frame from offset \<open>header_size * 4\<close> on. When byte 0 is 0x11 the header
  size is 1 word, that is 4 bytes, and the payload starts at offset 4.
\<close>

theorem header_fields:
  "unat (header_size response) = unat (response ! 0) mod 16 \<and>
   unat (message_type response) = unat (response ! 1) div 16 \<and>
   unat (message_type_specific_flags response) = unat (response ! 1) mod 16 \<and>
   unat (message_compression response) = unat (response ! 2) mod 16 \<and>
   payload response = drop (unat (header_size response) * 4) response \<and>
   (response ! 0 = 0x11 \<longrightarrow>
      header_size response = 1 \<and> unat (header_size response) * 4 = 4 \<and>
      payload response = drop 4 response)"
  by (simp add: header_size_def message_type_def message_type_specific_flags_def
      message_compression_def payload_def low_nibble high_nibble)

theorem header_fields_witness:
  "audio_frame ! 0 = 0x11 \<and> header_size audio_frame = 1 \<and>
   unat (message_type audio_frame) = 11 \<and>
   unat (message_type_specific_flags audio_frame) = 1 \<and>
   unat (message_compression audio_frame) = 0 \<and>
   payload audio_frame = [0, 0, 0, 1, 0, 0, 0, 2, 0xaa, 0xbb]"
proof -
  have b: "audio_frame ! 0 = 0x11" "audio_frame ! 1 = 0xb1" "audio_frame ! 2 = 0x10"
    "drop 4 audio_frame = [0, 0, 0, 1, 0, 0, 0, 2, 0xaa, 0xbb]"
    by (simp_all add: audio_frame_def)
  show ?thesis using header_fields [of audio_frame] b by simp
qed

section \<open>More facts about the decoder and the session\<close>

lemma parse_short:
  "length response < 3 \<Longrightarrow> parse_response E response buf = (Inl IndexError, buf)"
  by (simp add: parse_response_def)

lemma parse_error:
  "3 \<le> length response \<Longrightarrow> message_type response = 0xf \<Longrightarrow>
   parse_response E response buf =
     (case maybe_decompress E (message_compression response) (drop 8 (payload response)) of
        Inl x \<Rightarrow> (Inl (Raised x), buf)
      | Inr error_bytes \<Rightarrow>
          (case utf8_decode E error_bytes of
             None \<Rightarrow> (Inl UnicodeDecodeError, buf)
           | Some error_str \<Rightarrow>
               (Inl (InvokeBadRequestError
                  (error_text (from_bytes_big (take 4 (payload response))) error_str)), buf)))"
  by (simp add: parse_response_def)

lemma parse_frontend:
  "3 \<le> length response \<Longrightarrow> message_type response = 0xc \<Longrightarrow>
   parse_response E response buf =
     (case maybe_decompress E (message_compression response) (drop 4 (payload response)) of
        Inl x \<Rightarrow> (Inl (Raised x), buf)
      | Inr msg_bytes \<Rightarrow> (Inr True, buf))"
  by (simp add: parse_response_def)

lemma parse_other:
  "3 \<le> length response \<Longrightarrow> message_type response \<noteq> 0xb \<Longrightarrow>
   message_type response \<noteq> 0xf \<Longrightarrow> message_type response \<noteq> 0xc \<Longrightarrow>
   parse_response E response buf = (Inr False, buf)"
  by (simp add: parse_response_def)

lemma parse_buffer:
  "snd (parse_response E response buf) =
     (if 3 \<le> length response \<and> message_type response = 0xb \<and>
         message_type_specific_flags response \<noteq> 0
      then buf @ drop 8 (payload response) else buf)"
  by (simp add: parse_response_def Let_def split: sum.split option.split)

text \<open>Once the receive loop runs, the session's result is the loop's outcome.\<close>

lemma get_audio_data_outcome:
  assumes "session_connection E k request_json credentials = Some ws"
  shows "map_option fst (get_audio_data E k request_json credentials) =
           map_option (\<lambda>(outcome, buf). case outcome of Some e \<Rightarrow> Inl e | None \<Rightarrow> Inr buf)
             (recv_loop E (ws_recv ws) 0 [])"
  using assms
  by (auto simp: session_connection_def get_audio_data_def
      split: option.splits sum.splits)

lemma session_after_continues:
  assumes "recv_steps E rcv m 0 [] = Inr buf" and "rcv m = Inr response"
    and "parse_response E response buf = (Inl e, buf')"
  shows "recv_loop E rcv 0 [] = Some (Some e, buf')"
proof -
  from assms(1) have "recv_loop E rcv 0 [] = recv_loop E rcv m buf"
    using recv_steps_more [of E rcv m 0 "[]" buf] by simp
  also from assms(2,3) have "\<dots> = Some (Some e, buf')"
    by (simp add: recv_loop_frame)
  finally show ?thesis .
qed

text \<open>The text of the error determines the code and the message.\<close>

lemma str_of_nat_digits: "58 \<notin> set (str_of_nat n)"
proof (induction n rule: str_of_nat.induct)
  case (1 n)
  show ?case
  proof (cases "n < 10")
    case True
    then show ?thesis by (subst str_of_nat.simps) simp
  next
    case False
    have "n mod 10 < 10" by simp
    then have "48 + n mod 10 \<noteq> 58" by linarith
    with False 1 show ?thesis by (subst str_of_nat.simps) simp
  qed
qed

lemma str_of_nat_nonempty: "str_of_nat n \<noteq> []"
  by (subst str_of_nat.simps) simp

lemma str_of_nat_inj: "str_of_nat a = str_of_nat b \<Longrightarrow> a = b"
proof (induction a arbitrary: b rule: str_of_nat.induct)
  case (1 a)
  show ?case
  proof (cases "a < 10")
    case a: True
    show ?thesis
    proof (cases "b < 10")
      case True
      with a "1.prems" show ?thesis
        by (simp add: str_of_nat.simps [of a] str_of_nat.simps [of b])
    next
      case False
      with a "1.prems" have "[48 + a] = str_of_nat (b div 10) @ [48 + b mod 10]"
        by (simp add: str_of_nat.simps [of a] str_of_nat.simps [of b])
      then have "str_of_nat (b div 10) = []" by (simp add: Cons_eq_append_conv)
      then show ?thesis by (simp add: str_of_nat_nonempty)
    qed
  next
    case a: False
    show ?thesis
    proof (cases "b < 10")
      case True
      with a "1.prems" have "str_of_nat (a div 10) @ [48 + a mod 10] = [48 + b]"
        by (simp add: str_of_nat.simps [of a] str_of_nat.simps [of b])
      then have "str_of_nat (a div 10) = []" by (simp add: append_eq_Cons_conv)
      then show ?thesis by (simp add: str_of_nat_nonempty)
    next
      case False
      with a "1.prems" have e: "str_of_nat (a div 10) = str_of_nat (b div 10)"
        "a mod 10 = b mod 10"
        by (simp_all add: str_of_nat.simps [of a] str_of_nat.simps [of b])
      from a e(1) have "a div 10 = b div 10" by (rule "1.IH")
      with e(2) show ?thesis by (metis div_mult_mod_eq)
    qed
  qed
qed

lemma first_separator:
  assumes "x \<notin> set xs" and "x \<notin> set xs'" and "xs @ x # ys = xs' @ x # ys'"
  shows "xs = xs' \<and> ys = ys'"
proof -
  have "takeWhile (\<lambda>y. y \<noteq> x) (xs @ x # ys) = xs"
    using assms(1) by (induction xs) auto
  moreover have "takeWhile (\<lambda>y. y \<noteq> x) (xs' @ x # ys') = xs'"
    using assms(2) by (induction xs') auto
  ultimately have "xs = xs'" using assms(3) by simp
  with assms(3) show ?thesis by simp
qed

lemma error_text_inj:
  assumes "error_text c s = error_text c' s'"
  shows "c = c' \<and> s = s'"
proof -
  from assms have "str_of_nat c @ 58 # 32 # s = str_of_nat c' @ 58 # 32 # s'"
    by (simp add: error_text_def lit_def)
  then have "str_of_nat c = str_of_nat c' \<and> 32 # s = 32 # s'"
    by (rule first_separator [OF str_of_nat_digits str_of_nat_digits])
  then show ?thesis by (simp add: str_of_nat_inj)
qed

text \<open>The four bytes written for a length read back as that length.\<close>

lemma to_bytes4_roundtrip:
  assumes "n < 2 ^ 32"
  shows "from_bytes_big [of_nat (n div 2 ^ 24), of_nat (n div 2 ^ 16), of_nat (n div 2 ^ 8),
           of_nat n :: byte] = n"
proof -
  have u: "unat (of_nat m :: byte) = m mod 256" for m
    by (simp add: unat_of_nat)
  from assms have "n div 16777216 < 256" by simp
  then have "from_bytes_big [of_nat (n div 2 ^ 24), of_nat (n div 2 ^ 16), of_nat (n div 2 ^ 8),
           of_nat n :: byte] =
     ((n div 16777216 * 256 + n div 65536 mod 256) * 256 + n div 256 mod 256) * 256 + n mod 256"
    by (simp add: from_bytes_big_def u)
  also have "\<dots> = n"
  proof -
    have a1: "n div 16777216 = n div 65536 div 256"
      by (simp add: div_mult2_eq [symmetric])
    have b1: "n div 65536 = n div 256 div 256"
      by (simp add: div_mult2_eq [symmetric])
    have a: "n div 16777216 * 256 + n div 65536 mod 256 = n div 65536"
      unfolding a1 by (rule div_mult_mod_eq)
    have b: "n div 65536 * 256 + n div 256 mod 256 = n div 256"
      unfolding b1 by (rule div_mult_mod_eq)
    have c: "n div 256 * 256 + n mod 256 = n"
      by (rule div_mult_mod_eq)
    show ?thesis by (simp only: a b c)
  qed
  finally show ?thesis .
qed

lemma str_of_45000001: "str_of_nat 45000001 = lit ''45000001''"
  by (simp add: str_of_nat.simps lit_def)

lemmas session_eval = session_connection_def full_client_request_def to_bytes4_big_def
  demo_env_def frames_then_closed_def api_url_def authorization_def DEFAULT_HEADER_def

section \<open>Which frames write to the buffer\<close>

text \<open>
  Claim C9. A call of the decoder on a frame whose message type is not 0xb, or on a
  frame of type 0xb whose flags nibble is 0, leaves the audio buffer as it was (also
  when the call raises). Conversely, when a call changes the buffer, the frame has
  type 0xb and nonzero flags, and the change is the bytes after the 8-byte prefix
  appended at the end.
\<close>

theorem accumulator_unchanged:
  "(message_type response \<noteq> 0xb \<or> message_type_specific_flags response = 0 \<longrightarrow>
      snd (parse_response E response buf) = buf) \<and>
   (snd (parse_response E response buf) \<noteq> buf \<longrightarrow>
      3 \<le> length response \<and> message_type response = 0xb \<and>
      message_type_specific_flags response \<noteq> 0 \<and>
      snd (parse_response E response buf) = buf @ drop 8 (payload response))"
  by (simp add: parse_buffer)

theorem accumulator_unchanged_witness:
  "message_type frontend_frame \<noteq> 0xb \<and>
   snd (parse_response (demo_env []) frontend_frame [0xaa]) = [0xaa] \<and>
   message_type_specific_flags ack_frame = 0 \<and>
   snd (parse_response (demo_env []) ack_frame [0xaa]) = [0xaa] \<and>
   snd (parse_response (demo_env []) audio_frame [0xcc]) \<noteq> [0xcc] \<and>
   message_type audio_frame = 0xb \<and> message_type_specific_flags audio_frame \<noteq> 0 \<and>
   snd (parse_response (demo_env []) audio_frame [0xcc]) = [0xcc, 0xaa, 0xbb]"
proof -
  have f: "message_type frontend_frame \<noteq> 0xb"
    by (simp add: frontend_frame_def message_type_def)
  have k: "message_type_specific_flags ack_frame = 0"
    by (simp add: ack_frame_def message_type_specific_flags_def)
  have a: "snd (parse_response (demo_env []) audio_frame [0xcc]) \<noteq> [0xcc]"
    "drop 8 (payload audio_frame) = [0xaa, 0xbb]"
    by (simp_all add: audio_frame_def frame_eval)
  show ?thesis
    using accumulator_unchanged [of frontend_frame "demo_env []" "[0xaa]"]
      accumulator_unchanged [of ack_frame "demo_env []" "[0xaa]"]
      accumulator_unchanged [of audio_frame "demo_env []" "[0xcc]"] f k a
    by simp
qed

section \<open>Frames shorter than they declare\<close>

text \<open>
  Against claim C7 as stated: the sample audio frame declares ten bytes of audio and
  carries two. Decoding it does not fail; the two bytes are appended, and a session
  that then receives the last frame returns the truncated audio.
\<close>

theorem short_payload_counterexample:
  "from_bytes_big (take 4 (drop 4 (payload short_audio_frame))) = 10 \<and>
   length (drop 8 (payload short_audio_frame)) = 2 \<and>
   parse_response (demo_env []) short_audio_frame [] = (Inr False, [0xaa, 0xbb]) \<and>
   recv_loop (demo_env [])
     (ws_recv (frames_then_closed [short_audio_frame, last_audio_frame])) 0 [] =
     Some (None, [0xaa, 0xbb, 0xcc])"
proof -
  have "recv_steps (demo_env [])
     (ws_recv (frames_then_closed [short_audio_frame, last_audio_frame]))
     (Suc (Suc 0)) 0 [] = Inl (None, [0xaa, 0xbb, 0xcc])"
    by (simp add: frames_then_closed_def short_audio_frame_def last_audio_frame_def frame_eval)
  then have "recv_loop (demo_env [])
     (ws_recv (frames_then_closed [short_audio_frame, last_audio_frame])) 0 [] =
     Some (None, [0xaa, 0xbb, 0xcc])"
    by (rule recv_steps_ended)
  moreover have "from_bytes_big (take 4 (drop 4 (payload short_audio_frame))) = 10 \<and>
   length (drop 8 (payload short_audio_frame)) = 2 \<and>
   parse_response (demo_env []) short_audio_frame [] = (Inr False, [0xaa, 0xbb])"
    by (simp add: short_audio_frame_def frame_eval)
  ultimately show ?thesis by simp
qed

text \<open>
  Claim C7, amended. A frame of fewer than three bytes makes the decoder raise
  \<^verbatim>\<open>IndexError\<close>, which ends the session with that exception. A frame of at least
  three bytes with message type 0xb and nonzero flags never makes it fail, whatever
  size the frame declares: the bytes present after the first eight payload bytes
  are appended, none when the payload has eight bytes or fewer.
\<close>

theorem frame_length_handling:
  "(length response < 3 \<longrightarrow> parse_response E response buf = (Inl IndexError, buf)) \<and>
   (length response < 3 \<and> rcv n = Inr response \<longrightarrow>
      recv_loop E rcv n buf = Some (Some IndexError, buf)) \<and>
   (3 \<le> length response \<and> message_type response = 0xb \<and>
    message_type_specific_flags response \<noteq> 0 \<longrightarrow>
      parse_response E response buf =
        (Inr (from_bytes_big_signed (take 4 (payload response)) < 0),
         buf @ drop 8 (payload response)) \<and>
      (length (payload response) \<le> 8 \<longrightarrow> snd (parse_response E response buf) = buf))"
  by (simp add: parse_short parse_audio recv_loop_frame)

theorem frame_length_handling_witness:
  "length [0x11 :: byte, 0xb1] < 3 \<and>
   parse_response (demo_env []) [0x11, 0xb1] [0xaa] = (Inl IndexError, [0xaa]) \<and>
   recv_loop (demo_env []) (ws_recv (frames_then_closed [[0x11, 0xb1]])) 0 [0xaa] =
     Some (Some IndexError, [0xaa]) \<and>
   3 \<le> length short_audio_frame \<and> message_type short_audio_frame = 0xb \<and>
   message_type_specific_flags short_audio_frame \<noteq> 0 \<and>
   parse_response (demo_env []) short_audio_frame [] = (Inr False, [0xaa, 0xbb]) \<and>
   length (payload [0x11, 0xb1, 0x10, 0x00, 0xff]) \<le> 8 \<and>
   parse_response (demo_env []) [0x11, 0xb1, 0x10, 0x00, 0xff] [0xaa] = (Inr True, [0xaa])"
proof -
  let ?tiny = "[0x11, 0xb1, 0x10, 0x00, 0xff] :: bytes"
  have a: "3 \<le> length short_audio_frame" "message_type short_audio_frame = 0xb"
    "message_type_specific_flags short_audio_frame \<noteq> 0"
    "from_bytes_big_signed (take 4 (payload short_audio_frame)) = 1"
    "drop 8 (payload short_audio_frame) = [0xaa, 0xbb]"
    by (simp_all add: short_audio_frame_def frame_eval)
  have t: "3 \<le> length ?tiny" "message_type ?tiny = 0xb"
    "message_type_specific_flags ?tiny \<noteq> 0"
    "from_bytes_big_signed (take 4 (payload ?tiny)) = - 1"
    "payload ?tiny = [0xff]"
    by (simp_all add: frame_eval)
  have r: "ws_recv (frames_then_closed [[0x11, 0xb1]]) 0 = Inr [0x11, 0xb1]"
    by (simp add: frames_then_closed_def)
  show ?thesis
    using frame_length_handling [of "[0x11, 0xb1]" "demo_env []" "[0xaa]"
        "ws_recv (frames_then_closed [[0x11, 0xb1]])" 0]
      frame_length_handling [of short_audio_frame "demo_env []" "[]"]
      frame_length_handling [of ?tiny "demo_env []" "[0xaa]"] a t r
    by simp
qed

section \<open>Error frames\<close>

text \<open>The error code, read from at most four bytes, is below \<open>2 ^ 32\<close>.\<close>

lemma foldl_bytes_bound:
  "foldl (\<lambda>n b. n * 256 + unat (b :: byte)) a bs < (a + 1) * 256 ^ length bs"
proof (induction bs arbitrary: a)
  case Nil
  show ?case by simp
next
  case (Cons b bs)
  have "unat b < 256" using unsigned_less [of b, where ?'a = nat] by simp
  then have "a * 256 + unat b + 1 \<le> (a + 1) * 256" by simp
  then have "(a * 256 + unat b + 1) * 256 ^ length bs \<le> (a + 1) * 256 * 256 ^ length bs"
    by (rule mult_le_mono1)
  moreover have "(a + 1) * 256 * 256 ^ length bs = (a + 1) * 256 ^ length (b # bs)"
    by (simp add: algebra_simps)
  ultimately have "(a * 256 + unat b + 1) * 256 ^ length bs \<le> (a + 1) * 256 ^ length (b # bs)"
    by (simp only:)
  with Cons.IH [of "a * 256 + unat b"]
  have "foldl (\<lambda>n b. n * 256 + unat (b :: byte)) (a * 256 + unat b) bs <
      (a + 1) * 256 ^ length (b # bs)"
    by (rule less_le_trans)
  then show ?case by (simp only: foldl_Cons)
qed

lemma from_bytes_big_bound: "from_bytes_big bs < 256 ^ length bs"
  using foldl_bytes_bound [of 0 bs] by (simp add: from_bytes_big_def)

lemma code_bound: "from_bytes_big (take 4 bs) < 2 ^ 32"
proof -
  have "from_bytes_big (take 4 bs) < 256 ^ length (take 4 bs)" by (rule from_bytes_big_bound)
  also have "(256 :: nat) ^ length (take 4 bs) \<le> 256 ^ 4"
    by (rule power_increasing) simp_all
  finally show ?thesis by simp
qed

lemma str_of_175781: "str_of_nat 175781 = lit ''175781''"
  by (simp add: str_of_nat.simps lit_def)

text \<open>
  Against claim C3 as stated: the sample frame is an error frame with code 45000001,
  no compression, and a message that is not UTF-8. The decoder raises
  \<^verbatim>\<open>UnicodeDecodeError\<close>, which carries neither the code nor a message, and the session
  ends with it.
\<close>

theorem error_frame_counterexample:
  "3 \<le> length bad_utf8_error_frame \<and> message_type bad_utf8_error_frame = 0xf \<and>
   message_compression bad_utf8_error_frame = 0 \<and>
   from_bytes_big (take 4 (payload bad_utf8_error_frame)) = 45000001 \<and>
   drop 8 (payload bad_utf8_error_frame) = [0xff] \<and>
   parse_response (demo_env []) bad_utf8_error_frame [0xaa] = (Inl UnicodeDecodeError, [0xaa]) \<and>
   recv_loop (demo_env []) (ws_recv (frames_then_closed [bad_utf8_error_frame])) 0 [] =
     Some (Some UnicodeDecodeError, [])"
proof -
  have p: "parse_response (demo_env []) bad_utf8_error_frame b = (Inl UnicodeDecodeError, b)"
    for b
    by (simp add: bad_utf8_error_frame_def frame_eval demo_env_def demo_utf8_def)
  have "recv_steps (demo_env []) (ws_recv (frames_then_closed [bad_utf8_error_frame]))
      (Suc 0) 0 [] = Inl (Some UnicodeDecodeError, [])"
    by (simp add: frames_then_closed_def p)
  then have "recv_loop (demo_env []) (ws_recv (frames_then_closed [bad_utf8_error_frame])) 0 [] =
      Some (Some UnicodeDecodeError, [])"
    by (rule recv_steps_ended)
  moreover have "3 \<le> length bad_utf8_error_frame \<and> message_type bad_utf8_error_frame = 0xf \<and>
      message_compression bad_utf8_error_frame = 0 \<and>
      from_bytes_big (take 4 (payload bad_utf8_error_frame)) = 45000001 \<and>
      drop 8 (payload bad_utf8_error_frame) = [0xff]"
    by (simp add: bad_utf8_error_frame_def frame_eval)
  ultimately show ?thesis using p by simp
qed

text \<open>
  Claim C3, amended. For a frame of message type 0xf the decoder always raises, and
  leaves the buffer as it was. In a session whose earlier frames all asked for more,
  the receive loop ends with that exception, and \<^verbatim>\<open>_get_audio_data\<close> raises it: its
  result is the exception, never audio bytes. When the message decodes (after
  \<^verbatim>\<open>gzip.decompress\<close> when the compression nibble is 1, as UTF-8), the exception is
  \<^verbatim>\<open>InvokeBadRequestError\<close> with the text made of the error code and the message, and
  that text determines both. The code is the unsigned big-endian value of the first
  four payload bytes, or of the fewer that are there, so it is below \<open>2 ^ 32\<close>. When
  the message is not UTF-8 the exception is \<^verbatim>\<open>UnicodeDecodeError\<close>, and when
  \<^verbatim>\<open>gzip.decompress\<close> raises it is that exception; neither carries the code.
\<close>

theorem error_frame_session:
  assumes "3 \<le> length response" and "message_type response = 0xf"
  shows "\<exists>e.
     parse_response E response buf = (Inl e, buf) \<and>
     (recv_steps E rcv m 0 [] = Inr buf \<and> rcv m = Inr response \<longrightarrow>
        recv_loop E rcv 0 [] = Some (Some e, buf)) \<and>
     (session_connection E k request_json credentials = Some ws \<and>
      recv_steps E (ws_recv ws) m 0 [] = Inr buf \<and> ws_recv ws m = Inr response \<longrightarrow>
        map_option fst (get_audio_data E k request_json credentials) = Some (Inl e)) \<and>
     (\<forall>error_bytes error_str.
        maybe_decompress E (message_compression response) (drop 8 (payload response)) =
          Inr error_bytes \<and>
        utf8_decode E error_bytes = Some error_str \<longrightarrow>
        e = InvokeBadRequestError
              (error_text (from_bytes_big (take 4 (payload response))) error_str) \<and>
        (\<forall>code' msg'.
           error_text (from_bytes_big (take 4 (payload response))) error_str =
             error_text code' msg' \<longrightarrow>
           code' = from_bytes_big (take 4 (payload response)) \<and> msg' = error_str)) \<and>
     (\<forall>error_bytes.
        maybe_decompress E (message_compression response) (drop 8 (payload response)) =
          Inr error_bytes \<and>
        utf8_decode E error_bytes = None \<longrightarrow>
        e = UnicodeDecodeError) \<and>
     (\<forall>x.
        maybe_decompress E (message_compression response) (drop 8 (payload response)) =
          Inl x \<longrightarrow>
        e = Raised x) \<and>
     from_bytes_big (take 4 (payload response)) < 2 ^ 32"
proof -
  define e where "e =
    (case maybe_decompress E (message_compression response) (drop 8 (payload response)) of
       Inl x \<Rightarrow> Raised x
     | Inr error_bytes \<Rightarrow>
         (case utf8_decode E error_bytes of
            None \<Rightarrow> UnicodeDecodeError
          | Some error_str \<Rightarrow>
              InvokeBadRequestError
                (error_text (from_bytes_big (take 4 (payload response))) error_str)))"
  have p: "parse_response E response b = (Inl e, b)" for b
    using assms by (simp add: parse_error e_def split: sum.split option.split)
  have d: "e = InvokeBadRequestError
              (error_text (from_bytes_big (take 4 (payload response))) error_str)"
    if "maybe_decompress E (message_compression response) (drop 8 (payload response)) =
          Inr error_bytes"
      and "utf8_decode E error_bytes = Some error_str" for error_bytes error_str
    using that by (simp add: e_def)
  have l: "recv_loop E r 0 [] = Some (Some e, buf)"
    if "recv_steps E r m 0 [] = Inr buf" and "r m = Inr response" for r
    using that p by (rule session_after_continues)
  have g: "map_option fst (get_audio_data E k request_json credentials) = Some (Inl e)"
    if "session_connection E k request_json credentials = Some ws"
      and "recv_steps E (ws_recv ws) m 0 [] = Inr buf" and "ws_recv ws m = Inr response"
    using that l [of "ws_recv ws"] by (simp add: get_audio_data_outcome)
  show ?thesis
  proof (rule exI [of _ e], intro conjI impI allI)
    show "parse_response E response buf = (Inl e, buf)" by (rule p)
  next
    assume "recv_steps E rcv m 0 [] = Inr buf \<and> rcv m = Inr response"
    then show "recv_loop E rcv 0 [] = Some (Some e, buf)" by (simp add: l)
  next
    assume "session_connection E k request_json credentials = Some ws \<and>
      recv_steps E (ws_recv ws) m 0 [] = Inr buf \<and> ws_recv ws m = Inr response"
    then show "map_option fst (get_audio_data E k request_json credentials) = Some (Inl e)"
      by (simp add: g)
  next
    fix error_bytes error_str
    assume "maybe_decompress E (message_compression response) (drop 8 (payload response)) =
          Inr error_bytes \<and> utf8_decode E error_bytes = Some error_str"
    then show "e = InvokeBadRequestError
              (error_text (from_bytes_big (take 4 (payload response))) error_str)"
      by (simp add: d)
  next
    fix error_bytes error_str code' msg'
    assume "error_text (from_bytes_big (take 4 (payload response))) error_str =
      error_text code' msg'"
    then have "from_bytes_big (take 4 (payload response)) = code' \<and> error_str = msg'"
      by (rule error_text_inj)
    then show "code' = from_bytes_big (take 4 (payload response))" and "msg' = error_str"
      by simp_all
  next
    fix error_bytes
    assume "maybe_decompress E (message_compression response) (drop 8 (payload response)) =
          Inr error_bytes \<and> utf8_decode E error_bytes = None"
    then show "e = UnicodeDecodeError" by (simp add: e_def)
  next
    fix x
    assume "maybe_decompress E (message_compression response) (drop 8 (payload response)) =
          Inl x"
    then show "e = Raised x" by (simp add: e_def)
  next
    show "from_bytes_big (take 4 (payload response)) < 2 ^ 32" by (rule code_bound)
  qed
qed

theorem error_frame_session_witness:
  "3 \<le> length error_frame \<and> message_type error_frame = 0xf \<and>
   message_compression error_frame = 1 \<and>
   from_bytes_big (take 4 (payload error_frame)) = 45000001 \<and>
   maybe_decompress (demo_env [frames_then_closed [ack_frame, audio_frame, error_frame]])
     (message_compression error_frame) (drop 8 (payload error_frame)) =
     Inr (map of_char ''invalid token'') \<and>
   utf8_decode (demo_env [frames_then_closed [ack_frame, audio_frame, error_frame]])
     (map of_char ''invalid token'') = Some (lit ''invalid token'') \<and>
   parse_response (demo_env [frames_then_closed [ack_frame, audio_frame, error_frame]])
     error_frame [0xaa, 0xbb] =
     (Inl (InvokeBadRequestError (lit ''Error code 45000001: invalid token'')), [0xaa, 0xbb]) \<and>
   recv_loop (demo_env [frames_then_closed [ack_frame, audio_frame, error_frame]])
     (ws_recv (frames_then_closed [ack_frame, audio_frame, error_frame])) 0 [] =
     Some (Some (InvokeBadRequestError (lit ''Error code 45000001: invalid token'')),
       [0xaa, 0xbb]) \<and>
   map_option fst
     (get_audio_data (demo_env [frames_then_closed [ack_frame, audio_frame, error_frame]]) 0
        (JObj []) [''volc_access_key_id'' \<mapsto> lit ''key'']) =
     Some (Inl (InvokeBadRequestError (lit ''Error code 45000001: invalid token''))) \<and>
   3 \<le> length short_error_frame \<and> message_type short_error_frame = 0xf \<and>
   payload short_error_frame = [0x02, 0xae, 0xa5] \<and>
   parse_response (demo_env []) short_error_frame [0xaa] =
     (Inl (InvokeBadRequestError (lit ''Error code 175781: '')), [0xaa]) \<and>
   3 \<le> length bad_utf8_error_frame \<and> message_type bad_utf8_error_frame = 0xf \<and>
   utf8_decode (demo_env []) [0xff] = None \<and>
   parse_response (demo_env []) bad_utf8_error_frame [0xaa] =
     (Inl UnicodeDecodeError, [0xaa]) \<and>
   3 \<le> length bad_gzip_error_frame \<and> message_type bad_gzip_error_frame = 0xf \<and>
   maybe_decompress (demo_env []) (message_compression bad_gzip_error_frame)
     (drop 8 (payload bad_gzip_error_frame)) = Inl BadGzipFile \<and>
   parse_response (demo_env []) bad_gzip_error_frame [0xaa] =
     (Inl (Raised BadGzipFile), [0xaa])"
proof -
  let ?ws = "frames_then_closed [ack_frame, audio_frame, error_frame]"
  let ?E = "demo_env [?ws]"
  let ?D = "demo_env [] :: lib_exn env"
  have a: "3 \<le> length error_frame" "message_type error_frame = 0xf"
    "message_compression error_frame = 1"
    "from_bytes_big (take 4 (payload error_frame)) = 45000001"
    "drop 8 (payload error_frame) = gz_invalid_token"
    by (simp_all add: error_frame_def frame_eval)
  have d: "maybe_decompress ?E (message_compression error_frame) (drop 8 (payload error_frame)) =
      Inr (map of_char ''invalid token'')"
    by (simp add: a maybe_decompress_def demo_env_def demo_gunzip_def)
      (simp add: gz_invalid_token_def)
  have u: "utf8_decode ?E (map of_char ''invalid token'') = Some (lit ''invalid token'')"
    by (simp add: demo_env_def demo_utf8_def lit_def)
  have t: "error_text 45000001 (lit ''invalid token'') = lit ''Error code 45000001: invalid token''"
    by (simp add: error_text_def str_of_45000001) (simp add: lit_def)
  have s: "recv_steps ?E (ws_recv ?ws) (Suc (Suc 0)) 0 [] = Inr [0xaa, 0xbb]"
    by (simp add: frames_then_closed_def ack_frame_def audio_frame_def frame_eval)
  have r: "ws_recv ?ws (Suc (Suc 0)) = Inr error_frame"
    by (simp add: frames_then_closed_def)
  have c: "session_connection ?E 0 (JObj []) [''volc_access_key_id'' \<mapsto> lit ''key''] = Some ?ws"
    by (simp add: session_eval)
  from error_frame_session [OF a(1,2), where E = ?E and buf = "[0xaa, 0xbb]"
      and rcv = "ws_recv ?ws" and m = "Suc (Suc 0)" and k = 0 and request_json = "JObj []"
      and credentials = "[''volc_access_key_id'' \<mapsto> lit ''key'']" and ws = ?ws]
  obtain e where
    e1: "parse_response ?E error_frame [0xaa, 0xbb] = (Inl e, [0xaa, 0xbb])"
    and e2: "recv_steps ?E (ws_recv ?ws) (Suc (Suc 0)) 0 [] = Inr [0xaa, 0xbb] \<and>
        ws_recv ?ws (Suc (Suc 0)) = Inr error_frame \<longrightarrow>
        recv_loop ?E (ws_recv ?ws) 0 [] = Some (Some e, [0xaa, 0xbb])"
    and e3: "session_connection ?E 0 (JObj []) [''volc_access_key_id'' \<mapsto> lit ''key''] =
          Some ?ws \<and>
        recv_steps ?E (ws_recv ?ws) (Suc (Suc 0)) 0 [] = Inr [0xaa, 0xbb] \<and>
        ws_recv ?ws (Suc (Suc 0)) = Inr error_frame \<longrightarrow>
        map_option fst (get_audio_data ?E 0 (JObj [])
          [''volc_access_key_id'' \<mapsto> lit ''key'']) = Some (Inl e)"
    and e4: "\<forall>error_bytes error_str.
        maybe_decompress ?E (message_compression error_frame) (drop 8 (payload error_frame)) =
          Inr error_bytes \<and>
        utf8_decode ?E error_bytes = Some error_str \<longrightarrow>
        e = InvokeBadRequestError
              (error_text (from_bytes_big (take 4 (payload error_frame))) error_str) \<and>
        (\<forall>code' msg'.
           error_text (from_bytes_big (take 4 (payload error_frame))) error_str =
             error_text code' msg' \<longrightarrow>
           code' = from_bytes_big (take 4 (payload error_frame)) \<and> msg' = error_str)"
    by blast
  from e4 d u have "e = InvokeBadRequestError
      (error_text (from_bytes_big (take 4 (payload error_frame))) (lit ''invalid token''))"
    by blast
  with a(4) t have e: "e = InvokeBadRequestError (lit ''Error code 45000001: invalid token'')"
    by simp
  from e1 e2 e3 e s r c a d u have first:
    "3 \<le> length error_frame \<and> message_type error_frame = 0xf \<and>
     message_compression error_frame = 1 \<and>
     from_bytes_big (take 4 (payload error_frame)) = 45000001 \<and>
     maybe_decompress ?E (message_compression error_frame) (drop 8 (payload error_frame)) =
       Inr (map of_char ''invalid token'') \<and>
     utf8_decode ?E (map of_char ''invalid token'') = Some (lit ''invalid token'') \<and>
     parse_response ?E error_frame [0xaa, 0xbb] =
       (Inl (InvokeBadRequestError (lit ''Error code 45000001: invalid token'')),
        [0xaa, 0xbb]) \<and>
     recv_loop ?E (ws_recv ?ws) 0 [] =
       Some (Some (InvokeBadRequestError (lit ''Error code 45000001: invalid token'')),
         [0xaa, 0xbb]) \<and>
     map_option fst (get_audio_data ?E 0 (JObj []) [''volc_access_key_id'' \<mapsto> lit ''key'']) =
       Some (Inl (InvokeBadRequestError (lit ''Error code 45000001: invalid token'')))"
    by simp
  have sa: "3 \<le> length short_error_frame" "message_type short_error_frame = 0xf"
    "payload short_error_frame = [0x02, 0xae, 0xa5]"
    "from_bytes_big (take 4 (payload short_error_frame)) = 175781"
    "maybe_decompress ?D (message_compression short_error_frame)
       (drop 8 (payload short_error_frame)) = Inr []"
    "utf8_decode ?D [] = Some []"
    by (simp_all add: short_error_frame_def frame_eval demo_env_def demo_utf8_def)
  have st: "error_text 175781 [] = lit ''Error code 175781: ''"
    by (simp add: error_text_def str_of_175781) (simp add: lit_def)
  from error_frame_session [OF sa(1,2), where E = ?D and buf = "[0xaa]"]
  obtain es where
    s1: "parse_response ?D short_error_frame [0xaa] = (Inl es, [0xaa])"
    and s4: "\<forall>error_bytes error_str.
        maybe_decompress ?D (message_compression short_error_frame)
          (drop 8 (payload short_error_frame)) = Inr error_bytes \<and>
        utf8_decode ?D error_bytes = Some error_str \<longrightarrow>
        es = InvokeBadRequestError
              (error_text (from_bytes_big (take 4 (payload short_error_frame))) error_str) \<and>
        (\<forall>code' msg'.
           error_text (from_bytes_big (take 4 (payload short_error_frame))) error_str =
             error_text code' msg' \<longrightarrow>
           code' = from_bytes_big (take 4 (payload short_error_frame)) \<and> msg' = error_str)"
    by blast
  from s4 sa(5,6) have "es = InvokeBadRequestError
      (error_text (from_bytes_big (take 4 (payload short_error_frame))) [])"
    by blast
  with sa(4) st s1 have second:
    "parse_response ?D short_error_frame [0xaa] =
       (Inl (InvokeBadRequestError (lit ''Error code 175781: '')), [0xaa])"
    by simp
  have ua: "3 \<le> length bad_utf8_error_frame" "message_type bad_utf8_error_frame = 0xf"
    "maybe_decompress ?D (message_compression bad_utf8_error_frame)
       (drop 8 (payload bad_utf8_error_frame)) = Inr [0xff]"
    "utf8_decode ?D [0xff] = None"
    by (simp_all add: bad_utf8_error_frame_def frame_eval demo_env_def demo_utf8_def)
  from error_frame_session [OF ua(1,2), where E = ?D and buf = "[0xaa]"]
  obtain eu where
    u1: "parse_response ?D bad_utf8_error_frame [0xaa] = (Inl eu, [0xaa])"
    and u5: "\<forall>error_bytes.
        maybe_decompress ?D (message_compression bad_utf8_error_frame)
          (drop 8 (payload bad_utf8_error_frame)) = Inr error_bytes \<and>
        utf8_decode ?D error_bytes = None \<longrightarrow> eu = UnicodeDecodeError"
    by blast
  from u5 ua(3,4) have "eu = UnicodeDecodeError" by blast
  with u1 have third:
    "parse_response ?D bad_utf8_error_frame [0xaa] = (Inl UnicodeDecodeError, [0xaa])"
    by simp
  have ga: "3 \<le> length bad_gzip_error_frame" "message_type bad_gzip_error_frame = 0xf"
    "maybe_decompress ?D (message_compression bad_gzip_error_frame)
       (drop 8 (payload bad_gzip_error_frame)) = Inl BadGzipFile"
    by (simp_all add: bad_gzip_error_frame_def frame_eval demo_env_def demo_gunzip_def
        gz_invalid_token_def)
  from error_frame_session [OF ga(1,2), where E = ?D and buf = "[0xaa]"]
  obtain eg where
    g1: "parse_response ?D bad_gzip_error_frame [0xaa] = (Inl eg, [0xaa])"
    and g6: "\<forall>x.
        maybe_decompress ?D (message_compression bad_gzip_error_frame)
          (drop 8 (payload bad_gzip_error_frame)) = Inl x \<longrightarrow> eg = Raised x"
    by blast
  from g6 ga(3) have "eg = Raised BadGzipFile" by blast
  with g1 have fourth:
    "parse_response ?D bad_gzip_error_frame [0xaa] = (Inl (Raised BadGzipFile), [0xaa])"
    by simp
  from first second third fourth sa(1,2,3) ua(1,2,4) ga show ?thesis by blast
qed

section \<open>Error frames that do not decompress\<close>

text \<open>
  Against claim C8 as stated: the sample frame is an error frame with code 45000001
  and compression nibble 1 whose message is not a gzip stream. The decoder raises
  the exception of \<^verbatim>\<open>gzip.decompress\<close>, which does not carry the code.
\<close>

theorem error_decompression_counterexample:
  "message_type bad_gzip_error_frame = 0xf \<and> message_compression bad_gzip_error_frame = 1 \<and>
   from_bytes_big (take 4 (payload bad_gzip_error_frame)) = 45000001 \<and>
   gzip_decompress (demo_env []) (drop 8 (payload bad_gzip_error_frame)) = Inl BadGzipFile \<and>
   parse_response (demo_env []) bad_gzip_error_frame [0xaa] =
     (Inl (Raised BadGzipFile), [0xaa])"
  by (simp add: bad_gzip_error_frame_def frame_eval demo_env_def demo_gunzip_def
      gz_invalid_token_def)

text \<open>
  Claim C8, amended. For a frame of message type 0xf with compression nibble 1 whose
  message bytes \<^verbatim>\<open>gzip.decompress\<close> rejects, the decoder raises the exception of
  \<^verbatim>\<open>gzip.decompress\<close>, which is made from the message bytes alone, and leaves the
  buffer as it was; the session ends with that exception and returns no audio.
\<close>

theorem error_decompression_failure:
  assumes "3 \<le> length response" and "message_type response = 0xf"
    and "message_compression response = 1"
    and "gzip_decompress E (drop 8 (payload response)) = Inl x"
  shows "parse_response E response buf = (Inl (Raised x), buf) \<and>
         (recv_steps E rcv m 0 [] = Inr buf \<and> rcv m = Inr response \<longrightarrow>
            recv_loop E rcv 0 [] = Some (Some (Raised x), buf)) \<and>
         (session_connection E k request_json credentials = Some ws \<and>
          recv_steps E (ws_recv ws) m 0 [] = Inr buf \<and> ws_recv ws m = Inr response \<longrightarrow>
            map_option fst (get_audio_data E k request_json credentials) =
              Some (Inl (Raised x)))"
proof -
  from assms have p: "\<And>b. parse_response E response b = (Inl (Raised x), b)"
    by (simp add: parse_error maybe_decompress_def)
  have l: "recv_loop E r 0 [] = Some (Some (Raised x), buf)"
    if "recv_steps E r m 0 [] = Inr buf" and "r m = Inr response" for r
    using that p by (rule session_after_continues)
  show ?thesis
  proof (intro conjI impI)
    show "parse_response E response buf = (Inl (Raised x), buf)" by (rule p)
  next
    assume "recv_steps E rcv m 0 [] = Inr buf \<and> rcv m = Inr response"
    then show "recv_loop E rcv 0 [] = Some (Some (Raised x), buf)" by (simp add: l)
  next
    assume h: "session_connection E k request_json credentials = Some ws \<and>
          recv_steps E (ws_recv ws) m 0 [] = Inr buf \<and> ws_recv ws m = Inr response"
    then have "recv_loop E (ws_recv ws) 0 [] = Some (Some (Raised x), buf)" by (simp add: l)
    with h show "map_option fst (get_audio_data E k request_json credentials) =
        Some (Inl (Raised x))"
      by (simp add: get_audio_data_outcome)
  qed
qed

theorem error_decompression_failure_witness:
  "3 \<le> length bad_gzip_error_frame \<and> message_type bad_gzip_error_frame = 0xf \<and>
   message_compression bad_gzip_error_frame = 1 \<and>
   gzip_decompress (demo_env [frames_then_closed [ack_frame, audio_frame, bad_gzip_error_frame]])
     (drop 8 (payload bad_gzip_error_frame)) = Inl BadGzipFile \<and>
   parse_response (demo_env [frames_then_closed [ack_frame, audio_frame, bad_gzip_error_frame]])
     bad_gzip_error_frame [0xaa, 0xbb] = (Inl (Raised BadGzipFile), [0xaa, 0xbb]) \<and>
   recv_loop (demo_env [frames_then_closed [ack_frame, audio_frame, bad_gzip_error_frame]])
     (ws_recv (frames_then_closed [ack_frame, audio_frame, bad_gzip_error_frame])) 0 [] =
     Some (Some (Raised BadGzipFile), [0xaa, 0xbb]) \<and>
   map_option fst
     (get_audio_data
        (demo_env [frames_then_closed [ack_frame, audio_frame, bad_gzip_error_frame]]) 0
        (JObj []) [''volc_access_key_id'' \<mapsto> lit ''key'']) =
     Some (Inl (Raised BadGzipFile))"
proof -
  let ?ws = "frames_then_closed [ack_frame, audio_frame, bad_gzip_error_frame]"
  let ?E = "demo_env [?ws]"
  have a: "3 \<le> length bad_gzip_error_frame" "message_type bad_gzip_error_frame = 0xf"
    "message_compression bad_gzip_error_frame = 1"
    "gzip_decompress ?E (drop 8 (payload bad_gzip_error_frame)) = Inl BadGzipFile"
    by (simp_all add: bad_gzip_error_frame_def frame_eval demo_env_def demo_gunzip_def
        gz_invalid_token_def)
  have s: "recv_steps ?E (ws_recv ?ws) (Suc (Suc 0)) 0 [] = Inr [0xaa, 0xbb]"
    by (simp add: frames_then_closed_def ack_frame_def audio_frame_def frame_eval)
  have r: "ws_recv ?ws (Suc (Suc 0)) = Inr bad_gzip_error_frame"
    by (simp add: frames_then_closed_def)
  have c: "session_connection ?E 0 (JObj []) [''volc_access_key_id'' \<mapsto> lit ''key''] = Some ?ws"
    by (simp add: session_eval)
  show ?thesis
    using error_decompression_failure [OF a, of "[0xaa, 0xbb]" "ws_recv ?ws" "Suc (Suc 0)"
        0 "JObj []" "[''volc_access_key_id'' \<mapsto> lit ''key'']" ?ws]
      a s r c
    by simp
qed

section \<open>The request frame\<close>

text \<open>The result and the events of a session whose receive loop has ended.\<close>

lemma get_audio_data_received:
  assumes "session_connection E k request_json credentials = Some ws"
    and "recv_loop E (ws_recv ws) 0 [] = Some (outcome, buf)"
    and "full_client_request E request_json = Some request_bytes"
    and "credentials ''volc_access_key_id'' = Some key"
  shows "get_audio_data E k request_json credentials =
           Some (case outcome of Some e \<Rightarrow> Inl e | None \<Rightarrow> Inr buf,
             [Session k request_json, Connected k (api_url credentials) (authorization key),
              Sent k request_bytes, Closed k])"
  using assms
  by (auto simp: session_connection_def get_audio_data_def split: option.splits sum.splits)

lemma get_audio_data_sent:
  assumes "get_audio_data E k request_json credentials = Some (res, evs)"
    and "Sent j frame \<in> set evs"
  shows "full_client_request E request_json = Some frame"
  using assms
  by (auto simp: get_audio_data_def split: option.splits sum.splits)

lemma demo_session:
  "recv_loop E (ws_recv (frames_then_closed [ack_frame, audio_frame, last_audio_frame])) 0 [] =
     Some (None, [0xaa, 0xbb, 0xcc])"
proof -
  have "recv_steps E (ws_recv (frames_then_closed [ack_frame, audio_frame, last_audio_frame]))
      (Suc (Suc (Suc 0))) 0 [] = Inl (None, [0xaa, 0xbb, 0xcc])"
    by (simp add: frames_then_closed_def ack_frame_def audio_frame_def last_audio_frame_def
        frame_eval)
  then show ?thesis by (rule recv_steps_ended)
qed

text \<open>
  Claim C2. When the compressed payload is shorter than \<open>2 ^ 32\<close> bytes (otherwise
  \<^verbatim>\<open>to_bytes\<close> raises), the request frame is the four header bytes 0x11 0x10 0x11
  0x00, then the length of \<^verbatim>\<open>gzip.compress(str.encode(json.dumps(request)))\<close> in four
  bytes, big-endian, then that payload. The four length bytes read back as the
  length. The header's nibbles are version 1, header size 1, message type 1, flags
  0, serialisation 1, compression 1, and its last byte is 0. Every frame a session
  sends is this frame.
\<close>

theorem request_frame_encoding:
  assumes "payload_bytes = gzip_compress E (json_dumps_encode E request_json)"
    and "length payload_bytes < 2 ^ 32"
  shows "full_client_request E request_json =
           Some ([0x11, 0x10, 0x11, 0x00] @
                 [of_nat (length payload_bytes div 2 ^ 24),
                  of_nat (length payload_bytes div 2 ^ 16),
                  of_nat (length payload_bytes div 2 ^ 8),
                  of_nat (length payload_bytes)] @ payload_bytes) \<and>
         from_bytes_big
           [of_nat (length payload_bytes div 2 ^ 24),
            of_nat (length payload_bytes div 2 ^ 16),
            of_nat (length payload_bytes div 2 ^ 8),
            of_nat (length payload_bytes) :: byte] = length payload_bytes \<and>
         (drop_bit 4 (DEFAULT_HEADER ! 0) = 1 \<and> header_size DEFAULT_HEADER = 1 \<and>
          message_type DEFAULT_HEADER = 1 \<and> message_type_specific_flags DEFAULT_HEADER = 0 \<and>
          drop_bit 4 (DEFAULT_HEADER ! 2) = 1 \<and> message_compression DEFAULT_HEADER = 1 \<and>
          DEFAULT_HEADER ! 3 = 0) \<and>
         (get_audio_data E k request_json credentials = Some (res, evs) \<and>
          Sent j frame \<in> set evs \<longrightarrow>
            frame = [0x11, 0x10, 0x11, 0x00] @
                    [of_nat (length payload_bytes div 2 ^ 24),
                     of_nat (length payload_bytes div 2 ^ 16),
                     of_nat (length payload_bytes div 2 ^ 8),
                     of_nat (length payload_bytes)] @ payload_bytes)"
proof -
  let ?size = "[of_nat (length payload_bytes div 2 ^ 24),
                of_nat (length payload_bytes div 2 ^ 16),
                of_nat (length payload_bytes div 2 ^ 8),
                of_nat (length payload_bytes)] :: bytes"
  from assms have f: "full_client_request E request_json =
      Some ([0x11, 0x10, 0x11, 0x00] @ ?size @ payload_bytes)"
    by (simp add: full_client_request_def to_bytes4_big_def DEFAULT_HEADER_def Let_def)
  have r: "from_bytes_big ?size = length payload_bytes"
    using assms(2) by (rule to_bytes4_roundtrip)
  have h: "drop_bit 4 (DEFAULT_HEADER ! 0) = 1 \<and> header_size DEFAULT_HEADER = 1 \<and>
          message_type DEFAULT_HEADER = 1 \<and> message_type_specific_flags DEFAULT_HEADER = 0 \<and>
          drop_bit 4 (DEFAULT_HEADER ! 2) = 1 \<and> message_compression DEFAULT_HEADER = 1 \<and>
          DEFAULT_HEADER ! 3 = 0"
    by (simp add: DEFAULT_HEADER_def header_size_def message_type_def
        message_type_specific_flags_def message_compression_def)
  have s: "frame = [0x11, 0x10, 0x11, 0x00] @ ?size @ payload_bytes"
    if "get_audio_data E k request_json credentials = Some (res, evs)"
      and "Sent j frame \<in> set evs"
    using get_audio_data_sent [OF that] f by simp
  from f r h s show ?thesis by blast
qed

theorem request_frame_encoding_witness:
  "gzip_compress (demo_env [frames_then_closed [ack_frame, audio_frame, last_audio_frame]])
     (json_dumps_encode
        (demo_env [frames_then_closed [ack_frame, audio_frame, last_audio_frame]]) (JObj [])) =
     [0x1f, 0x8b, 0x7b, 0x7d] \<and>
   length [0x1f, 0x8b, 0x7b, 0x7d :: byte] < 2 ^ 32 \<and>
   full_client_request
     (demo_env [frames_then_closed [ack_frame, audio_frame, last_audio_frame]]) (JObj []) =
     Some [0x11, 0x10, 0x11, 0x00, 0, 0, 0, 4, 0x1f, 0x8b, 0x7b, 0x7d] \<and>
   get_audio_data (demo_env [frames_then_closed [ack_frame, audio_frame, last_audio_frame]]) 0
     (JObj []) [''volc_access_key_id'' \<mapsto> lit ''key''] =
     Some (Inr [0xaa, 0xbb, 0xcc],
       [Session 0 (JObj []),
        Connected 0 (api_url [''volc_access_key_id'' \<mapsto> lit ''key''])
          (authorization (lit ''key'')),
        Sent 0 [0x11, 0x10, 0x11, 0x00, 0, 0, 0, 4, 0x1f, 0x8b, 0x7b, 0x7d],
        Closed 0])"
proof -
  let ?ws = "frames_then_closed [ack_frame, audio_frame, last_audio_frame]"
  let ?E = "demo_env [?ws]"
  let ?c = "[''volc_access_key_id'' \<mapsto> lit ''key'']"
  let ?frame = "[0x11, 0x10, 0x11, 0x00, 0, 0, 0, 4, 0x1f, 0x8b, 0x7b, 0x7d] :: bytes"
  have p: "gzip_compress ?E (json_dumps_encode ?E (JObj [])) = [0x1f, 0x8b, 0x7b, 0x7d]"
    by (simp add: demo_env_def)
  have l: "length (gzip_compress ?E (json_dumps_encode ?E (JObj []))) < 2 ^ 32"
    by (simp add: p)
  have c: "session_connection ?E 0 (JObj []) ?c = Some ?ws"
    by (simp add: session_eval)
  have f: "full_client_request ?E (JObj []) = Some ?frame"
    by (simp add: session_eval)
  have g: "get_audio_data ?E 0 (JObj []) ?c =
     Some (Inr [0xaa, 0xbb, 0xcc],
       [Session 0 (JObj []), Connected 0 (api_url ?c) (authorization (lit ''key'')),
        Sent 0 ?frame, Closed 0])"
    using get_audio_data_received [OF c demo_session f] by simp
  have "Sent 0 ?frame \<in> set [Session 0 (JObj []),
      Connected 0 (api_url ?c) (authorization (lit ''key'')), Sent 0 ?frame, Closed 0]"
    by simp
  with g request_frame_encoding [OF refl l, of 0 ?c "Inr [0xaa, 0xbb, 0xcc]" _ 0 ?frame] f
  show ?thesis by (simp add: p)
qed

section \<open>The orchestrator\<close>

lemma yielded_append: "yielded (xs @ ys) = yielded xs @ yielded ys"
  by (induction xs rule: yielded.induct) simp_all

lemma sessions_append: "sessions (xs @ ys) = sessions xs @ sessions ys"
  by (induction xs rule: sessions.induct) simp_all

lemma upt_shift: "k # [Suc k ..< Suc k + m] = [k ..< k + Suc m]"
proof -
  have "[k ..< k + Suc m] = k # [Suc k ..< k + Suc m]" by (rule upt_conv_Cons) simp
  moreover have "Suc k + m = k + Suc m" by simp
  ultimately show ?thesis by (simp only:)
qed

text \<open>The events of one session: its shape, for a failed and for a successful one.\<close>

lemma get_audio_data_events:
  assumes "get_audio_data E k request_json credentials = Some (res, evs)"
  shows "yielded evs = [] \<and> sessions evs = [k] \<and>
         (isl res \<longrightarrow> sequential k Idle evs) \<and>
         (\<not> isl res \<longrightarrow>
            (\<forall>b tr. sequential k Idle (evs @ Yielded b # tr) = sequential (Suc k) Idle tr))"
  using assms
  by (auto simp: get_audio_data_def split: option.splits sum.splits)

lemma stream_sentences_run:
  assumes "\<forall>i<length ss.
     get_audio_data E (k + i) (chunk_request base (uuid4 E (u + i)) (ss ! i)) credentials \<noteq> None"
  shows "\<exists>tr failure n.
     stream_sentences E base credentials k u ss = Some (tr, failure) \<and>
     sequential k Idle tr \<and> n \<le> length ss \<and> length (yielded tr) = n \<and>
     (\<forall>i<n. \<exists>evs.
        get_audio_data E (k + i) (chunk_request base (uuid4 E (u + i)) (ss ! i)) credentials =
          Some (Inr (yielded tr ! i), evs)) \<and>
     (n = length ss \<longrightarrow> failure = None \<and> sessions tr = [k ..< k + n]) \<and>
     (n < length ss \<longrightarrow>
        sessions tr = [k ..< k + Suc n] \<and>
        (\<exists>e evs.
           get_audio_data E (k + n) (chunk_request base (uuid4 E (u + n)) (ss ! n)) credentials =
             Some (Inl e, evs) \<and> failure = Some e))"
  using assms
proof (induction ss arbitrary: k u)
  case Nil
  show ?case by simp
next
  case (Cons s ss)
  let ?g = "\<lambda>k u s. get_audio_data E k (chunk_request base (uuid4 E u) s) credentials"
  from Cons.prems have "?g (k + 0) (u + 0) ((s # ss) ! 0) \<noteq> None" by blast
  then obtain res evs where hd: "?g k u s = Some (res, evs)" by auto
  note ev = get_audio_data_events [OF hd]
  show ?case
  proof (cases res)
    case (Inl e)
    with hd ev have "stream_sentences E base credentials k u (s # ss) = Some (evs, Some e)"
      and "sequential k Idle evs" and "yielded evs = []" and "sessions evs = [k]"
      by simp_all
    with hd Inl show ?thesis
      by (intro exI [of _ evs] exI [of _ "Some e"] exI [of _ 0]) simp
  next
    case (Inr chunk)
    have "\<forall>i<length ss. ?g (Suc k + i) (Suc u + i) (ss ! i) \<noteq> None"
    proof (intro allI impI)
      fix i assume "i < length ss"
      then have "Suc i < length (s # ss)" by simp
      with Cons.prems have "?g (k + Suc i) (u + Suc i) ((s # ss) ! Suc i) \<noteq> None" by blast
      then show "?g (Suc k + i) (Suc u + i) (ss ! i) \<noteq> None" by simp
    qed
    from Cons.IH [OF this] obtain tr failure n where
      run: "stream_sentences E base credentials (Suc k) (Suc u) ss = Some (tr, failure)"
      and sq: "sequential (Suc k) Idle tr" and n: "n \<le> length ss"
      and len: "length (yielded tr) = n"
      and ok: "\<forall>i<n. \<exists>evs. ?g (Suc k + i) (Suc u + i) (ss ! i) = Some (Inr (yielded tr ! i), evs)"
      and all: "n = length ss \<longrightarrow> failure = None \<and> sessions tr = [Suc k ..< Suc k + n]"
      and bad: "n < length ss \<longrightarrow> sessions tr = [Suc k ..< Suc k + Suc n] \<and>
        (\<exists>e evs. ?g (Suc k + n) (Suc u + n) (ss ! n) = Some (Inl e, evs) \<and> failure = Some e)"
      by blast
    let ?tr = "evs @ Yielded chunk # tr"
    from hd Inr run have r: "stream_sentences E base credentials k u (s # ss) = Some (?tr, failure)"
      by simp
    from ev Inr sq have s1: "sequential k Idle ?tr" by simp
    from ev have y: "yielded ?tr = chunk # yielded tr" by (simp add: yielded_append)
    from ev have ss: "sessions ?tr = k # sessions tr" by (simp add: sessions_append)
    have o: "\<forall>i<Suc n. \<exists>evs. ?g (k + i) (u + i) ((s # ss) ! i) = Some (Inr (yielded ?tr ! i), evs)"
    proof (intro allI impI)
      fix i assume i: "i < Suc n"
      show "\<exists>evs. ?g (k + i) (u + i) ((s # ss) ! i) = Some (Inr (yielded ?tr ! i), evs)"
      proof (cases i)
        case 0
        with hd Inr y show ?thesis by simp
      next
        case (Suc j)
        with i ok have "\<exists>evs. ?g (Suc k + j) (Suc u + j) (ss ! j) = Some (Inr (yielded tr ! j), evs)"
          by simp
        with Suc y show ?thesis by simp
      qed
    qed
    have a: "Suc n = length (s # ss) \<longrightarrow> failure = None \<and> sessions ?tr = [k ..< k + Suc n]"
    proof
      assume "Suc n = length (s # ss)"
      then have "n = length ss" by simp
      with all have "failure = None" and "sessions tr = [Suc k ..< Suc k + n]" by simp_all
      with ss show "failure = None \<and> sessions ?tr = [k ..< k + Suc n]"
        by (simp only: upt_shift)
    qed
    have b: "Suc n < length (s # ss) \<longrightarrow> sessions ?tr = [k ..< k + Suc (Suc n)] \<and>
        (\<exists>e evs. ?g (k + Suc n) (u + Suc n) ((s # ss) ! Suc n) = Some (Inl e, evs) \<and>
           failure = Some e)"
    proof
      assume "Suc n < length (s # ss)"
      then have "n < length ss" by simp
      with bad obtain e evs' where "sessions tr = [Suc k ..< Suc k + Suc n]"
        and f: "?g (Suc k + n) (Suc u + n) (ss ! n) = Some (Inl e, evs')" "failure = Some e"
        by blast
      with ss have "sessions ?tr = [k ..< k + Suc (Suc n)]" by (simp only: upt_shift)
      moreover from f have "?g (k + Suc n) (u + Suc n) ((s # ss) ! Suc n) = Some (Inl e, evs')"
        by simp
      ultimately show "sessions ?tr = [k ..< k + Suc (Suc n)] \<and>
        (\<exists>e evs. ?g (k + Suc n) (u + Suc n) ((s # ss) ! Suc n) = Some (Inl e, evs) \<and>
           failure = Some e)"
        using f(2) by blast
    qed
    from r s1 n len y o a b show ?thesis
      by (intro exI [of _ ?tr] exI [of _ failure] exI [of _ "Suc n"]) simp
  qed
qed

lemma demo_failed_session:
  "recv_loop (demo_env conns)
     (ws_recv (frames_then_closed [ack_frame, audio_frame, error_frame])) 0 [] =
     Some (Some (InvokeBadRequestError (lit ''Error code 45000001: invalid token'')),
       [0xaa, 0xbb])"
proof -
  let ?E = "demo_env conns"
  have a: "3 \<le> length error_frame" "message_type error_frame = 0xf"
    "message_compression error_frame = 1"
    "from_bytes_big (take 4 (payload error_frame)) = 45000001"
    "drop 8 (payload error_frame) = gz_invalid_token"
    by (simp_all add: error_frame_def frame_eval)
  have d: "maybe_decompress ?E (message_compression error_frame) (drop 8 (payload error_frame)) =
      Inr (map of_char ''invalid token'')"
    by (simp add: a maybe_decompress_def demo_env_def demo_gunzip_def)
      (simp add: gz_invalid_token_def)
  have u: "utf8_decode ?E (map of_char ''invalid token'') = Some (lit ''invalid token'')"
    by (simp add: demo_env_def demo_utf8_def lit_def)
  have t: "error_text 45000001 (lit ''invalid token'') = lit ''Error code 45000001: invalid token''"
    by (simp add: error_text_def str_of_45000001) (simp add: lit_def)
  have p: "parse_response ?E error_frame [0xaa, 0xbb] =
      (Inl (InvokeBadRequestError (lit ''Error code 45000001: invalid token'')), [0xaa, 0xbb])"
    using a d u t by (simp add: parse_error)
  have s: "recv_steps ?E (ws_recv (frames_then_closed [ack_frame, audio_frame, error_frame]))
      (Suc (Suc 0)) 0 [] = Inr [0xaa, 0xbb]"
    by (simp add: frames_then_closed_def ack_frame_def audio_frame_def frame_eval)
  have r: "ws_recv (frames_then_closed [ack_frame, audio_frame, error_frame]) (Suc (Suc 0)) =
      Inr error_frame"
    by (simp add: frames_then_closed_def)
  from s r p show ?thesis by (rule session_after_continues)
qed

lemma demo_chunk:
  assumes "k < length conns" and "conns ! k = frames_then_closed frames"
    and "recv_loop (demo_env conns) (ws_recv (frames_then_closed frames)) 0 [] =
           Some (outcome, buf)"
  shows "get_audio_data (demo_env conns) k request_json [''volc_access_key_id'' \<mapsto> key] =
           Some (case outcome of Some e \<Rightarrow> Inl e | None \<Rightarrow> Inr buf,
             [Session k request_json,
              Connected k (api_url [''volc_access_key_id'' \<mapsto> key]) (authorization key),
              Sent k [0x11, 0x10, 0x11, 0x00, 0, 0, 0, 4, 0x1f, 0x8b, 0x7b, 0x7d],
              Closed k])"
proof -
  let ?c = "[''volc_access_key_id'' \<mapsto> key]"
  have f: "full_client_request (demo_env conns) request_json =
      Some [0x11, 0x10, 0x11, 0x00, 0, 0, 0, 4, 0x1f, 0x8b, 0x7b, 0x7d]"
    by (simp add: full_client_request_def to_bytes4_big_def demo_env_def DEFAULT_HEADER_def)
  have w: "ws_connect (demo_env conns) k (api_url ?c) (authorization key) =
      Inr (frames_then_closed frames)"
    using assms(1,2) by (simp add: demo_env_def)
  have c: "session_connection (demo_env conns) k request_json ?c =
      Some (frames_then_closed frames)"
    by (simp add: session_connection_def f w) (simp add: frames_then_closed_def)
  from get_audio_data_received [OF c assms(3) f] show ?thesis by simp
qed

text \<open>
  Claim C6. For a caller that consumes the generator, and when every session
  returns: the generator ends with a trace that is sequential (for each chunk in
  turn its session is called, its connection opened, used and closed, and its
  buffer yielded, before anything of the next chunk happens). It yields \<open>n\<close> buffers,
  the \<open>i\<close>-th of them the audio of the \<open>i\<close>-th chunk's session. Either \<open>n\<close> is the
  number of chunks, one buffer for each, and the generator ends normally; or the
  session of chunk \<open>n\<close> failed, no session after it was started, no buffer for it
  or for a later chunk was yielded, and the generator ends with that failure.
\<close>

theorem streaming_is_sequential:
  assumes "\<forall>i<length (split_text_into_sentences E content_text
                        (get_model_word_limit E model credentials)).
             chunk_session E model credentials content_text voice user i \<noteq> None"
  shows "\<exists>tr failure n.
     invoke_streaming E model credentials content_text voice user = Some (tr, failure) \<and>
     sequential 0 Idle tr \<and>
     n \<le> length (split_text_into_sentences E content_text
                    (get_model_word_limit E model credentials)) \<and>
     length (yielded tr) = n \<and>
     (\<forall>i<n. \<exists>evs. chunk_session E model credentials content_text voice user i =
                     Some (Inr (yielded tr ! i), evs)) \<and>
     (n = length (split_text_into_sentences E content_text
                    (get_model_word_limit E model credentials)) \<longrightarrow>
        failure = None \<and> sessions tr = [0 ..< n]) \<and>
     (n < length (split_text_into_sentences E content_text
                    (get_model_word_limit E model credentials)) \<longrightarrow>
        sessions tr = [0 ..< Suc n] \<and>
        (\<exists>e evs. chunk_session E model credentials content_text voice user n =
                    Some (Inl e, evs) \<and> failure = Some e))"
proof -
  let ?ss = "split_text_into_sentences E content_text (get_model_word_limit E model credentials)"
  let ?base = "base_request credentials (fst (user_uid E user)) voice
                 (get_model_audio_type E model credentials)"
  let ?u = "snd (user_uid E user)"
  from assms have "\<forall>i<length ?ss.
      get_audio_data E (0 + i) (chunk_request ?base (uuid4 E (?u + i)) (?ss ! i)) credentials
        \<noteq> None"
    by (simp add: chunk_session_def)
  from stream_sentences_run [OF this] show ?thesis
    by (simp add: invoke_streaming_def chunk_session_def Let_def)
qed

theorem streaming_is_sequential_witness:
  "length (split_text_into_sentences
        (demo_env [frames_then_closed [ack_frame, audio_frame, last_audio_frame],
                   frames_then_closed [ack_frame, audio_frame, error_frame]])
        (lit ''Hello Dify!'')
        (get_model_word_limit
           (demo_env [frames_then_closed [ack_frame, audio_frame, last_audio_frame],
                      frames_then_closed [ack_frame, audio_frame, error_frame]])
           (lit ''tts'') [''volc_access_key_id'' \<mapsto> lit ''key''])) = 2 \<and>
   map_option fst (chunk_session
        (demo_env [frames_then_closed [ack_frame, audio_frame, last_audio_frame],
                   frames_then_closed [ack_frame, audio_frame, error_frame]])
        (lit ''tts'') [''volc_access_key_id'' \<mapsto> lit ''key''] (lit ''Hello Dify!'')
        (lit ''en_male'') None 0) = Some (Inr [0xaa, 0xbb, 0xcc]) \<and>
   map_option fst (chunk_session
        (demo_env [frames_then_closed [ack_frame, audio_frame, last_audio_frame],
                   frames_then_closed [ack_frame, audio_frame, error_frame]])
        (lit ''tts'') [''volc_access_key_id'' \<mapsto> lit ''key''] (lit ''Hello Dify!'')
        (lit ''en_male'') None 1) =
     Some (Inl (InvokeBadRequestError (lit ''Error code 45000001: invalid token''))) \<and>
   (\<exists>tr. invoke_streaming
        (demo_env [frames_then_closed [ack_frame, audio_frame, last_audio_frame],
                   frames_then_closed [ack_frame, audio_frame, error_frame]])
        (lit ''tts'') [''volc_access_key_id'' \<mapsto> lit ''key''] (lit ''Hello Dify!'')
        (lit ''en_male'') None =
        Some (tr, Some (InvokeBadRequestError (lit ''Error code 45000001: invalid token''))) \<and>
      sequential 0 Idle tr \<and> yielded tr = [[0xaa, 0xbb, 0xcc]] \<and> sessions tr = [0, 1])"
proof -
  let ?good = "frames_then_closed [ack_frame, audio_frame, last_audio_frame]"
  let ?bad = "frames_then_closed [ack_frame, audio_frame, error_frame]"
  let ?E = "demo_env [?good, ?bad]"
  let ?c = "[''volc_access_key_id'' \<mapsto> lit ''key'']"
  let ?err = "InvokeBadRequestError (lit ''Error code 45000001: invalid token'')"
  let ?frame = "[0x11, 0x10, 0x11, 0x00, 0, 0, 0, 4, 0x1f, 0x8b, 0x7b, 0x7d] :: bytes"
  have sp: "split_text_into_sentences ?E (lit ''Hello Dify!'')
      (get_model_word_limit ?E (lit ''tts'') ?c) = [lit ''Hello '', lit ''Dify!'']"
    by (simp add: demo_env_def demo_split_def lit_def)
  have g0: "get_audio_data ?E 0 rq ?c =
      Some (Inr [0xaa, 0xbb, 0xcc],
        [Session 0 rq, Connected 0 (api_url ?c) (authorization (lit ''key'')),
         Sent 0 ?frame, Closed 0])" for rq
    using demo_chunk [of 0 "[?good, ?bad]" _ None "[0xaa, 0xbb, 0xcc]" rq "lit ''key''"]
      demo_session [of ?E]
    by simp
  have g1: "get_audio_data ?E (Suc 0) rq ?c =
      Some (Inl ?err,
        [Session (Suc 0) rq, Connected (Suc 0) (api_url ?c) (authorization (lit ''key'')),
         Sent (Suc 0) ?frame, Closed (Suc 0)])" for rq
    using demo_chunk [of "Suc 0" "[?good, ?bad]" _ "Some ?err" "[0xaa, 0xbb]" rq "lit ''key''"]
      demo_failed_session [of "[?good, ?bad]"]
    by simp
  have h: "\<forall>i<length (split_text_into_sentences ?E (lit ''Hello Dify!'')
               (get_model_word_limit ?E (lit ''tts'') ?c)).
      chunk_session ?E (lit ''tts'') ?c (lit ''Hello Dify!'') (lit ''en_male'') None i \<noteq> None"
    by (auto simp: sp chunk_session_def less_Suc_eq g0 g1)
  have r: "\<exists>tr. invoke_streaming ?E (lit ''tts'') ?c (lit ''Hello Dify!'') (lit ''en_male'') None =
        Some (tr, Some ?err) \<and>
      sequential 0 Idle tr \<and> yielded tr = [[0xaa, 0xbb, 0xcc]] \<and> sessions tr = [0, 1]"
    by (simp add: invoke_streaming_def sp g0 g1)
  have l: "length (split_text_into_sentences ?E (lit ''Hello Dify!'')
      (get_model_word_limit ?E (lit ''tts'') ?c)) = 2"
    by (simp add: sp)
  have c0: "map_option fst (chunk_session ?E (lit ''tts'') ?c (lit ''Hello Dify!'')
      (lit ''en_male'') None 0) = Some (Inr [0xaa, 0xbb, 0xcc])"
    by (simp add: chunk_session_def g0)
  have c1: "map_option fst (chunk_session ?E (lit ''tts'') ?c (lit ''Hello Dify!'')
      (lit ''en_male'') None 1) = Some (Inl ?err)"
    using g1 by (simp add: chunk_session_def)
  from streaming_is_sequential [OF h] l c0 c1 r show ?thesis by blast
qed

section \<open>Metadata frames\<close>

text \<open>
  Claim C5. The claim asks that a metadata frame (message type 0xc) leaves the
  session receiving. The decoder does otherwise: on the sample metadata frame it
  returns \<open>True\<close> without touching the buffer, where its docstring promises \<open>False\<close>
  when more data is expected, and where the same frame with an unknown message type
  (0xd) returns \<open>False\<close>. So a session that receives the metadata frame between its
  audio frames ends there, and \<^verbatim>\<open>_get_audio_data\<close> returns the two bytes received so
  far as the chunk's audio: the last audio frame is never read. Without the metadata
  frame the same session returns all three bytes.
\<close>

theorem metadata_frame_ends_session:
  "message_type frontend_frame = 0xc \<and>
   parse_response (demo_env []) frontend_frame [0xaa, 0xbb] = (Inr True, [0xaa, 0xbb]) \<and>
   message_type (frontend_frame [1 := 0xd0]) = 0xd \<and>
   parse_response (demo_env []) (frontend_frame [1 := 0xd0]) [0xaa, 0xbb] =
     (Inr False, [0xaa, 0xbb]) \<and>
   recv_loop (demo_env [])
     (ws_recv (frames_then_closed [ack_frame, audio_frame, frontend_frame, last_audio_frame]))
     0 [] = Some (None, [0xaa, 0xbb]) \<and>
   map_option fst
     (get_audio_data
        (demo_env
           [frames_then_closed [ack_frame, audio_frame, frontend_frame, last_audio_frame]])
        0 (JObj []) [''volc_access_key_id'' \<mapsto> lit ''key'']) = Some (Inr [0xaa, 0xbb]) \<and>
   recv_loop (demo_env [])
     (ws_recv (frames_then_closed [ack_frame, audio_frame, last_audio_frame])) 0 [] =
     Some (None, [0xaa, 0xbb, 0xcc])"
proof -
  let ?frames = "[ack_frame, audio_frame, frontend_frame, last_audio_frame]"
  have p: "message_type frontend_frame = 0xc"
    "parse_response E frontend_frame [0xaa, 0xbb] = (Inr True, [0xaa, 0xbb])"
    "message_type (frontend_frame [1 := 0xd0]) = 0xd"
    "parse_response E (frontend_frame [1 := 0xd0]) [0xaa, 0xbb] = (Inr False, [0xaa, 0xbb])"
    for E :: "lib_exn env"
    by (simp_all add: frontend_frame_def frame_eval)
  have "recv_steps E (ws_recv (frames_then_closed ?frames)) (Suc (Suc (Suc 0))) 0 [] =
      Inl (None, [0xaa, 0xbb])" for E :: "lib_exn env"
    by (simp add: frames_then_closed_def ack_frame_def audio_frame_def frontend_frame_def
        frame_eval)
  then have l: "recv_loop E (ws_recv (frames_then_closed ?frames)) 0 [] =
      Some (None, [0xaa, 0xbb])" for E :: "lib_exn env"
    by (rule recv_steps_ended)
  have g: "map_option fst
     (get_audio_data (demo_env [frames_then_closed ?frames]) 0 (JObj [])
        [''volc_access_key_id'' \<mapsto> lit ''key'']) = Some (Inr [0xaa, 0xbb])"
    using demo_chunk [of 0 "[frames_then_closed ?frames]" ?frames None "[0xaa, 0xbb]"
        "JObj []" "lit ''key''"] l
    by simp
  from p l g demo_session [of "demo_env []"] show ?thesis by simp
qed

section \<open>The voice of a request\<close>

text \<open>A server that only ever acknowledges keeps the receive loop running for ever.\<close>

lemma parse_ack: "parse_response E ack_frame buf = (Inr False, buf)"
  by (simp add: ack_frame_def parse_response_def message_type_def
      message_type_specific_flags_def)

lemma recv_loop_never_ends:
  assumes "recv_loop E rcv n buf = Some y"
  shows "\<exists>i. rcv i \<noteq> Inr ack_frame"
proof (rule recv_loop.raw_induct
    [where P = "\<lambda>E rcv n buf y. \<exists>i. rcv i \<noteq> Inr ack_frame", OF _ assms])
  fix loop :: "'a env \<Rightarrow> (nat \<Rightarrow> 'a + bytes) \<Rightarrow> nat \<Rightarrow> bytes \<Rightarrow> ('a error option \<times> bytes) option"
    and E rcv n buf y
  assume ih: "\<And>E rcv n buf y. loop E rcv n buf = Some y \<Longrightarrow> \<exists>i. rcv i \<noteq> Inr ack_frame"
    and body: "(case rcv n of
         Inl x \<Rightarrow> Some (Some (Raised x), buf)
       | Inr response \<Rightarrow>
           (case parse_response E response buf of
              (Inl e, b) \<Rightarrow> Some (Some e, b)
            | (Inr done, b) \<Rightarrow> if done then Some (None, b) else loop E rcv (Suc n) b)) =
       Some y"
  show "\<exists>i. rcv i \<noteq> Inr ack_frame"
  proof (rule ccontr)
    assume "\<not> (\<exists>i. rcv i \<noteq> Inr ack_frame)"
    then have a: "rcv i = Inr ack_frame" for i by simp
    with body have "loop E rcv (Suc n) buf = Some y" by (simp add: parse_ack)
    then have "\<exists>i. rcv i \<noteq> Inr ack_frame" by (rule ih)
    with a show False by simp
  qed
qed

lemma acks_for_ever_hangs: "recv_loop E (ws_recv acks_for_ever) 0 [] = None"
proof (cases "recv_loop E (ws_recv acks_for_ever) 0 []")
  case None
  then show ?thesis .
next
  case (Some y)
  then have "\<exists>i. ws_recv acks_for_ever i \<noteq> Inr ack_frame" by (rule recv_loop_never_ends)
  then show ?thesis by (simp add: acks_for_ever_def)
qed

lemma session_requests_append:
  "session_requests (xs @ ys) = session_requests xs @ session_requests ys"
  by (induction xs rule: session_requests.induct) simp_all

lemma session_requests_member:
  "Session k rq \<in> set tr \<Longrightarrow> rq \<in> set (session_requests tr)"
  by (induction tr rule: session_requests.induct) auto

lemma get_audio_data_request:
  assumes "get_audio_data E k request_json credentials = Some (res, evs)"
  shows "session_requests evs = [request_json]"
  using assms
  by (auto simp: get_audio_data_def split: option.splits sum.splits)

text \<open>Every request of a run is made from the base request.\<close>

lemma loop_requests_made:
  assumes "rq \<in> set (loop_requests E base credentials k u ss)"
  shows "\<exists>reqid sentence. rq = chunk_request base reqid sentence"
  using assms
proof (induction ss arbitrary: k u)
  case Nil
  then show ?case by simp
next
  case (Cons s ss)
  let ?rq = "chunk_request base (uuid4 E u) s"
  from Cons.prems have "rq = ?rq \<or>
      rq \<in> set (loop_requests E base credentials (Suc k) (Suc u) ss)"
    by (auto split: option.splits sum.splits)
  then show ?case
  proof
    assume "rq = ?rq"
    then show ?thesis by blast
  next
    assume "rq \<in> set (loop_requests E base credentials (Suc k) (Suc u) ss)"
    then show ?thesis by (rule Cons.IH)
  qed
qed

text \<open>When the run ends, its trace records exactly these requests.\<close>

lemma stream_sentences_loop_requests:
  assumes "stream_sentences E base credentials k u ss = Some (tr, failure)"
  shows "session_requests tr = loop_requests E base credentials k u ss"
  using assms
proof (induction ss arbitrary: k u tr failure)
  case Nil
  then show ?case by simp
next
  case (Cons s ss)
  let ?rq = "chunk_request base (uuid4 E u) s"
  from Cons.prems obtain res evs where
    hd: "get_audio_data E k ?rq credentials = Some (res, evs)"
    by (cases "get_audio_data E k ?rq credentials") auto
  note rq = get_audio_data_request [OF hd]
  show ?case
  proof (cases res)
    case (Inl e)
    with hd Cons.prems rq show ?thesis by simp
  next
    case (Inr chunk)
    with hd Cons.prems obtain tr' where
      tl: "stream_sentences E base credentials (Suc k) (Suc u) ss = Some (tr', failure)"
      and tr: "tr = evs @ Yielded chunk # tr'"
      by (auto split: option.splits)
    from tl have "session_requests tr' = loop_requests E base credentials (Suc k) (Suc u) ss"
      by (rule Cons.IH)
    with hd Inr tr rq show ?thesis by (simp add: session_requests_append)
  qed
qed

lemma chunk_request_voice:
  "json_get2 (chunk_request (base_request credentials uid voice audio_type) reqid sentence)
     ''audio'' ''voice_type'' = Some (JStr voice)"
  by (simp add: chunk_request_def base_request_def json_get2_def update_conv')

lemma demo_hanging_chunk:
  "get_audio_data (demo_env [acks_for_ever]) 0 request_json [''volc_access_key_id'' \<mapsto> key] =
     None"
proof -
  let ?c = "[''volc_access_key_id'' \<mapsto> key]"
  have f: "full_client_request (demo_env [acks_for_ever]) request_json =
      Some [0x11, 0x10, 0x11, 0x00, 0, 0, 0, 4, 0x1f, 0x8b, 0x7b, 0x7d]"
    by (simp add: full_client_request_def to_bytes4_big_def demo_env_def DEFAULT_HEADER_def)
  have w: "ws_connect (demo_env [acks_for_ever]) 0 (api_url ?c) (authorization key) =
      Inr acks_for_ever"
    by (simp add: demo_env_def)
  have s: "ws_send acks_for_ever bs = None" for bs
    by (simp add: acks_for_ever_def)
  show ?thesis
    by (simp add: get_audio_data_def f w s acks_for_ever_hangs)
qed

text \<open>
  Claim C10. In every request that a call of \<^verbatim>\<open>_invoke\<close> hands to a session,
  whether or not the call ever returns, the voice is the model's default voice when
  the requested voice is empty or not among the model's voices, and the requested
  voice otherwise. There is such a request as soon as the text has a sentence. When
  the call returns, the requests its trace records are these requests.
\<close>

theorem voice_selection:
  "(\<forall>rq \<in> set (invoke_requests E model tenant_id credentials content_text voice user).
      json_get2 rq ''audio'' ''voice_type'' =
        Some (JStr (if voice = [] \<or> voice \<notin> set (get_tts_model_voices E model credentials)
                    then get_model_default_voice E model credentials else voice))) \<and>
   (split_text_into_sentences E content_text (get_model_word_limit E model credentials) \<noteq> []
      \<longrightarrow> invoke_requests E model tenant_id credentials content_text voice user \<noteq> []) \<and>
   (\<forall>tr failure.
      invoke E model tenant_id credentials content_text voice user = Some (tr, failure) \<longrightarrow>
      session_requests tr =
        invoke_requests E model tenant_id credentials content_text voice user \<and>
      (\<forall>k rq. Session k rq \<in> set tr \<longrightarrow>
         json_get2 rq ''audio'' ''voice_type'' =
           Some (JStr (if voice = [] \<or>
                          voice \<notin> set (get_tts_model_voices E model credentials)
                       then get_model_default_voice E model credentials else voice))))"
proof -
  let ?v = "effective_voice E model credentials voice"
  let ?base = "base_request credentials (fst (user_uid E user)) ?v
                 (get_model_audio_type E model credentials)"
  let ?ss = "split_text_into_sentences E content_text (get_model_word_limit E model credentials)"
  let ?rqs = "invoke_requests E model tenant_id credentials content_text voice user"
  have v: "?v = (if voice = [] \<or> voice \<notin> set (get_tts_model_voices E model credentials)
                 then get_model_default_voice E model credentials else voice)"
    by (simp add: effective_voice_def)
  have r: "?rqs = loop_requests E ?base credentials 0 (snd (user_uid E user)) ?ss"
    by (simp add: invoke_requests_def invoke_streaming_requests_def Let_def)
  have a: "json_get2 rq ''audio'' ''voice_type'' = Some (JStr ?v)" if "rq \<in> set ?rqs" for rq
  proof -
    from that r obtain reqid sentence where "rq = chunk_request ?base reqid sentence"
      using loop_requests_made by metis
    then show ?thesis by (simp add: chunk_request_voice)
  qed
  have b: "?rqs \<noteq> []" if "?ss \<noteq> []"
    using that r by (cases ?ss) simp_all
  have c: "session_requests tr = ?rqs"
    if "invoke E model tenant_id credentials content_text voice user = Some (tr, failure)"
    for tr failure
  proof -
    from that have "stream_sentences E ?base credentials 0 (snd (user_uid E user)) ?ss =
        Some (tr, failure)"
      by (simp add: invoke_def invoke_streaming_def Let_def)
    then show ?thesis unfolding r by (rule stream_sentences_loop_requests)
  qed
  have d: "json_get2 rq ''audio'' ''voice_type'' = Some (JStr ?v)"
    if "invoke E model tenant_id credentials content_text voice user = Some (tr, failure)"
      and "Session k rq \<in> set tr" for tr failure k rq
  proof -
    from that(2) have "rq \<in> set (session_requests tr)" by (rule session_requests_member)
    with c [OF that(1)] show ?thesis by (simp add: a)
  qed
  show ?thesis
  proof (intro conjI ballI allI impI)
    fix rq assume "rq \<in> set ?rqs"
    then show "json_get2 rq ''audio'' ''voice_type'' =
        Some (JStr (if voice = [] \<or> voice \<notin> set (get_tts_model_voices E model credentials)
                    then get_model_default_voice E model credentials else voice))"
      using a v by simp
  next
    assume "?ss \<noteq> []"
    then show "?rqs \<noteq> []" by (rule b)
  next
    fix tr failure
    assume "invoke E model tenant_id credentials content_text voice user = Some (tr, failure)"
    then show "session_requests tr = ?rqs" by (rule c)
  next
    fix tr failure k rq
    assume "invoke E model tenant_id credentials content_text voice user = Some (tr, failure)"
      and "Session k rq \<in> set tr"
    then show "json_get2 rq ''audio'' ''voice_type'' =
        Some (JStr (if voice = [] \<or> voice \<notin> set (get_tts_model_voices E model credentials)
                    then get_model_default_voice E model credentials else voice))"
      using d v by simp
  qed
qed

theorem voice_selection_witness:
  "split_text_into_sentences (demo_env [acks_for_ever]) (lit ''Hi'')
     (get_model_word_limit (demo_env [acks_for_ever]) (lit ''tts'')
        [''volc_access_key_id'' \<mapsto> lit ''key'']) = [lit ''Hi''] \<and>
   invoke (demo_env [acks_for_ever]) (lit ''tts'') []
     [''volc_access_key_id'' \<mapsto> lit ''key''] (lit ''Hi'') (lit ''nope'') None = None \<and>
   length (invoke_requests (demo_env [acks_for_ever]) (lit ''tts'') []
     [''volc_access_key_id'' \<mapsto> lit ''key''] (lit ''Hi'') (lit ''nope'') None) = 1 \<and>
   json_get2
     (hd (invoke_requests (demo_env [acks_for_ever]) (lit ''tts'') []
        [''volc_access_key_id'' \<mapsto> lit ''key''] (lit ''Hi'') (lit ''nope'') None))
     ''audio'' ''voice_type'' = Some (JStr (lit ''zh_female'')) \<and>
   (\<exists>tr rq.
      invoke (demo_env [frames_then_closed [ack_frame, audio_frame, last_audio_frame]])
        (lit ''tts'') [] [''volc_access_key_id'' \<mapsto> lit ''key''] (lit ''Hi'')
        (lit ''en_male'') None = Some (tr, None) \<and>
      Session 0 rq \<in> set tr \<and>
      session_requests tr = [rq] \<and>
      json_get2 rq ''audio'' ''voice_type'' = Some (JStr (lit ''en_male'')))"
proof -
  let ?good = "frames_then_closed [ack_frame, audio_frame, last_audio_frame]"
  let ?E = "demo_env [?good]"
  let ?H = "demo_env [acks_for_ever]"
  let ?c = "[''volc_access_key_id'' \<mapsto> lit ''key'']"
  let ?frame = "[0x11, 0x10, 0x11, 0x00, 0, 0, 0, 4, 0x1f, 0x8b, 0x7b, 0x7d] :: bytes"
  let ?rq = "\<lambda>E v. chunk_request
     (base_request ?c (fst (user_uid E None)) v (get_model_audio_type E (lit ''tts'') ?c))
     (uuid4 E (snd (user_uid E None))) (lit ''Hi'')"
  let ?tr = "[Session 0 (?rq ?E (lit ''en_male'')),
     Connected 0 (api_url ?c) (authorization (lit ''key'')),
     Sent 0 ?frame, Closed 0, Yielded [0xaa, 0xbb, 0xcc]]"
  have sp: "split_text_into_sentences (demo_env conns) (lit ''Hi'')
      (get_model_word_limit (demo_env conns) (lit ''tts'') ?c) = [lit ''Hi'']" for conns
    by (simp add: demo_env_def demo_split_def lit_def)
  have vs: "get_tts_model_voices (demo_env conns) (lit ''tts'') ?c =
      [lit ''zh_female'', lit ''en_male'']"
    "get_model_default_voice (demo_env conns) (lit ''tts'') ?c = lit ''zh_female''" for conns
    by (simp_all add: demo_env_def)
  have n: "lit ''nope'' \<notin> set [lit ''zh_female'', lit ''en_male'']"
    by (simp add: lit_def)
  have m: "lit ''en_male'' \<noteq> []" "lit ''en_male'' \<in> set [lit ''zh_female'', lit ''en_male'']"
    by (simp_all add: lit_def)
  have e1: "effective_voice ?H (lit ''tts'') ?c (lit ''nope'') = lit ''zh_female''"
    using n by (simp add: effective_voice_def vs)
  have e2: "effective_voice ?E (lit ''tts'') ?c (lit ''en_male'') = lit ''en_male''"
    using m by (simp add: effective_voice_def vs)
  have g0: "get_audio_data ?E 0 rq ?c =
      Some (Inr [0xaa, 0xbb, 0xcc],
        [Session 0 rq, Connected 0 (api_url ?c) (authorization (lit ''key'')),
         Sent 0 ?frame, Closed 0])" for rq
    using demo_chunk [of 0 "[?good]" _ None "[0xaa, 0xbb, 0xcc]" rq "lit ''key''"]
      demo_session [of ?E]
    by simp
  have h1: "invoke ?H (lit ''tts'') [] ?c (lit ''Hi'') (lit ''nope'') None = None"
    by (simp add: invoke_def invoke_streaming_def sp demo_hanging_chunk)
  have h2: "invoke_requests ?H (lit ''tts'') [] ?c (lit ''Hi'') (lit ''nope'') None =
      [?rq ?H (lit ''zh_female'')]"
    by (simp add: invoke_requests_def invoke_streaming_requests_def sp demo_hanging_chunk e1)
  have i2: "invoke ?E (lit ''tts'') [] ?c (lit ''Hi'') (lit ''en_male'') None = Some (?tr, None)"
    by (simp add: invoke_def invoke_streaming_def sp g0 e2)
  have s2: "Session 0 (?rq ?E (lit ''en_male'')) \<in> set ?tr" by simp
  have q2: "session_requests ?tr = [?rq ?E (lit ''en_male'')]" by simp
  note t1 = voice_selection [of ?H "lit ''tts''" "[]" ?c "lit ''Hi''" "lit ''nope''" None]
  note t2 = voice_selection [of ?E "lit ''tts''" "[]" ?c "lit ''Hi''" "lit ''en_male''" None]
  from t1 h2 n have v1: "json_get2 (?rq ?H (lit ''zh_female'')) ''audio'' ''voice_type'' =
      Some (JStr (lit ''zh_female''))"
    by (simp add: vs)
  from t2 i2 s2 m have v2: "json_get2 (?rq ?E (lit ''en_male'')) ''audio'' ''voice_type'' =
      Some (JStr (lit ''en_male''))"
    by (simp add: vs)
  from sp [of "[acks_for_ever]"] h1 h2 v1 i2 s2 q2 v2 show ?thesis by simp
qed

end
